theory Spec2Isabelle
  imports Complex_Main "HOL-Library.Word" "HOL-Library.Sublist"
begin

section \<open>Go values used by Vehicules.go\<close>

text \<open>
  Go's \<open>int\<close> is modelled as a 64-bit word read in two's complement (\<open>sint\<close>), Go's
  \<open>string\<close> as a list of bytes. \<open>fmt.Sprintf("%d", n)\<close> and \<open>strconv.Itoa(n)\<close> both
  render the signed value in decimal, with a leading minus sign for negative values.
\<close>

type_synonym go_int = "64 word"

definition digit :: "nat \<Rightarrow> char" where
  "digit d = ''0123456789'' ! d"

function digits :: "nat \<Rightarrow> string" where
  "digits n = (if n < 10 then [digit n] else digits (n div 10) @ [digit (n mod 10)])"
  by pat_completeness auto
termination
  by (relation "measure id") auto

declare digits.simps [simp del]

definition itoa :: "int \<Rightarrow> string" where
  "itoa i = (if i < 0 then CHR ''-'' # digits (nat (- i)) else digits (nat i))"

definition sprintf_d :: "go_int \<Rightarrow> string" where
  "sprintf_d n = itoa (sint n)"

section \<open>Query construction (fetchVehicles, lines 25 to 54)\<close>

definition apiBase :: string where
  "apiBase =
     ''https://public.opendatasoft.com/api/records/1.0/search/?dataset=all-vehicles-model&q=''"

text \<open>
  The source grows the variable \<open>apiURL\<close> by one conditional assignment after the other;
  each \<open>let\<close> below is one of these assignments, in the order of the source.
\<close>

definition buildURL ::
  "string \<Rightarrow> string \<Rightarrow> string \<Rightarrow> go_int \<Rightarrow> go_int \<Rightarrow> go_int \<Rightarrow> string" where
  "buildURL make' model' sort' year cylinders resultNb =
     (let apiURL = apiBase;
          apiURL = (if resultNb \<noteq> 0 then apiURL @ ''&rows='' @ sprintf_d resultNb
                    else apiURL @ ''&rows=10'');
          apiURL = (if sort' \<noteq> [] then apiURL @ ''&sort='' @ sort' else apiURL);
          apiURL = (if make' \<noteq> [] then apiURL @ ''&refine.make='' @ make' else apiURL);
          apiURL = (if model' \<noteq> [] then apiURL @ ''&refine.model='' @ model' else apiURL);
          apiURL = (if year \<noteq> 0 then apiURL @ ''&refine.year='' @ sprintf_d year
                    else apiURL);
          apiURL = (if cylinders \<noteq> 0
                    then apiURL @ ''&refine.cylinders='' @ sprintf_d cylinders
                    else apiURL)
      in apiURL)"

section \<open>Decoded JSON (the values of \<open>interface{}\<close> built by encoding/json)\<close>

text \<open>
  \<open>json.Unmarshal\<close> into an \<open>interface{}\<close> yields \<open>nil\<close>, a \<open>bool\<close>, a \<open>float64\<close>, a
  \<open>string\<close>, a \<open>[]interface{}\<close> or a \<open>map[string]interface{}\<close>. A \<open>float64\<close> read from
  JSON is finite and is modelled by the real number it denotes. A Go map is modelled by an
  association list read with \<open>map_of\<close>; indexing a map with a key it does not hold
  yields the zero value of the element type, here \<open>nil\<close>.
\<close>

datatype json =
    JNull
  | JBool bool
  | JNumber real
  | JString string
  | JArray "json list"
  | JObject "(string \<times> json) list"

definition index :: "(string \<times> json) list \<Rightarrow> string \<Rightarrow> json" where
  "index m key = (case map_of m key of None \<Rightarrow> JNull | Some v \<Rightarrow> v)"

text \<open>The two-value type assertions \<open>v, ok := x.(T)\<close>: the zero value of T when not ok.\<close>

definition assertString :: "json \<Rightarrow> string \<times> bool" where
  "assertString x = (case x of JString s \<Rightarrow> (s, True) | _ \<Rightarrow> ([], False))"

definition assertFloat64 :: "json \<Rightarrow> real \<times> bool" where
  "assertFloat64 x = (case x of JNumber f \<Rightarrow> (f, True) | _ \<Rightarrow> (0, False))"

text \<open>
  The conversion \<open>int(f)\<close> of a \<open>float64\<close> discards the fraction (truncation towards
  zero). When the truncated value is not representable in the 64-bit \<open>int\<close> the
  conversion still succeeds, with a result that the language leaves to the implementation;
  \<open>outOfRange\<close> stands for that choice.
\<close>

definition trunc :: "real \<Rightarrow> int" where
  "trunc f = (if f < 0 then \<lceil>f\<rceil> else \<lfloor>f\<rfloor>)"

definition float64ToInt :: "(real \<Rightarrow> go_int) \<Rightarrow> real \<Rightarrow> go_int" where
  "float64ToInt outOfRange f =
     (if - (2 ^ 63) \<le> trunc f \<and> trunc f < 2 ^ 63 then word_of_int (trunc f)
      else outOfRange f)"

section \<open>Fetching and decoding (fetchVehicles, lines 58 to 107)\<close>

record Vehicle =
  Make :: string
  Model :: string
  Year :: string
  Cylinders :: go_int

text \<open>
  The errors of \<open>fetchVehicles\<close> are built by \<open>fmt.Errorf\<close>; they are named here after the
  taxonomy of the specification, with the message of the source beside each. \<open>Panic\<close> is
  not an error value: it is the run-time panic of a failed single-value type assertion,
  which nothing in the program recovers.
\<close>

datatype error =
    TransportGet        \<comment> \<open>failed to fetch data from external API\<close>
  | RemoteStatus int    \<comment> \<open>external API returned an error: code\<close>
  | TransportRead       \<comment> \<open>failed to read response body\<close>
  | MalformedPayload    \<comment> \<open>failed to parse JSON\<close>
  | UnexpectedShape     \<comment> \<open>invalid JSON structure from API\<close>
  | Panic               \<comment> \<open>interface conversion: interface {} is not map[string]interface {}\<close>

text \<open>
  The two diagnostic prints of \<open>fetchVehicles\<close> (lines 27 and 56) have no part in its
  result and are left out. The outside world of \<open>fetchVehicles\<close>: what \<open>http.Get\<close> answers for a URL (an error, or
  a response with its status code and a body that \<open>io.ReadAll\<close> reads or fails to read),
  the value that encoding/json decodes from a body (\<open>None\<close> when the bytes are not valid
  JSON), and the implementation's choice for out-of-range float conversions.
\<close>

datatype read_result = ReadError | ReadAll string

datatype get_result = GetError | Response int read_result

record env =
  httpGet :: "string \<Rightarrow> get_result"
  jsonDecode :: "string \<Rightarrow> json option"
  outOfRange :: "real \<Rightarrow> go_int"

text \<open>
  \<open>json.Unmarshal(body, &result)\<close> with \<open>result\<close> a nil \<open>map[string]interface{}\<close>: an
  object fills the map, \<open>null\<close> leaves it nil without error, and any other value, like
  invalid JSON, is an error.
\<close>

definition unmarshalMap :: "json option \<Rightarrow> error + (string \<times> json) list" where
  "unmarshalMap decoded =
     (case decoded of
        None \<Rightarrow> Inl MalformedPayload
      | Some JNull \<Rightarrow> Inr []
      | Some (JObject m) \<Rightarrow> Inr m
      | Some _ \<Rightarrow> Inl MalformedPayload)"

text \<open>
  The loop of lines 87 to 105 over \<open>records\<close>, with the slice \<open>vehicles\<close> as accumulator.
  In \<open>record.(map[string]interface{})["fields"].(map[string]interface{})\<close> only the outer
  assertion is of the two-value form; the inner one panics on a record that is not a map.
\<close>

fun decodeRecords :: "(real \<Rightarrow> go_int) \<Rightarrow> json list \<Rightarrow> Vehicle list \<Rightarrow> error + Vehicle list" where
  "decodeRecords oor [] vehicles = Inr vehicles"
| "decodeRecords oor (record' # records) vehicles =
     (case record' of
        JObject m \<Rightarrow>
          (case index m ''fields'' of
             JObject data \<Rightarrow>
               (let make' = fst (assertString (index data ''make''));
                    model' = fst (assertString (index data ''model''));
                    year = fst (assertString (index data ''year''));
                    cylinders = fst (assertFloat64 (index data ''cylinders''));
                    cylindersInt = float64ToInt oor cylinders
                in decodeRecords oor records
                     (vehicles @ [\<lparr>Make = make', Model = model', Year = year,
                                    Cylinders = cylindersInt\<rparr>]))
           | _ \<Rightarrow> decodeRecords oor records vehicles)
      | _ \<Rightarrow> Inl Panic)"

definition decodeBody :: "env \<Rightarrow> string \<Rightarrow> error + Vehicle list" where
  "decodeBody e body =
     (case unmarshalMap (jsonDecode e body) of
        Inl err \<Rightarrow> Inl err
      | Inr result \<Rightarrow>
          (case index result ''records'' of
             JArray records \<Rightarrow> decodeRecords (outOfRange e) records []
           | _ \<Rightarrow> Inl UnexpectedShape))"

definition fetchBody :: "env \<Rightarrow> string \<Rightarrow> error + string" where
  "fetchBody e apiURL =
     (case httpGet e apiURL of
        GetError \<Rightarrow> Inl TransportGet
      | Response StatusCode body \<Rightarrow>
          if StatusCode \<noteq> 200 then Inl (RemoteStatus StatusCode)
          else (case body of ReadError \<Rightarrow> Inl TransportRead | ReadAll bytes \<Rightarrow> Inr bytes))"

definition fetchVehicles ::
  "env \<Rightarrow> string \<Rightarrow> string \<Rightarrow> string \<Rightarrow> go_int \<Rightarrow> go_int \<Rightarrow> go_int \<Rightarrow> error + Vehicle list" where
  "fetchVehicles e make' model' sort' year cylinders resultNb =
     (case fetchBody e (buildURL make' model' sort' year cylinders resultNb) of
        Inl err \<Rightarrow> Inl err
      | Inr body \<Rightarrow> decodeBody e body)"

section \<open>The exporters (saveVehiclesToJSON and saveVehiclesToCSV, lines 110 to 166)\<close>

text \<open>
  \<open>json.MarshalIndent\<close> of a \<open>[]Vehicle\<close>: a nil slice marshals to \<open>null\<close>, any other to
  an array with one object per element, whose members carry the names of the struct tags
  in the order of the fields. The document is kept as a JSON value; its layout in bytes
  (indentation, escaping) is the library's. Marshalling this type cannot fail, so the
  error branch of line 113 is never taken. The only empty slice the program ever holds is
  the nil slice that \<open>fetchVehicles\<close> returns when it appended nothing.
\<close>

definition vehicleObject :: "Vehicle \<Rightarrow> json" where
  "vehicleObject v =
     JObject [(''make'', JString (Make v)), (''model'', JString (Model v)),
              (''year'', JString (Year v)),
              (''cylinders'', JNumber (real_of_int (sint (Cylinders v))))]"

definition marshalIndent :: "Vehicle list \<Rightarrow> json" where
  "marshalIndent vehicles =
     (if vehicles = [] then JNull else JArray (map vehicleObject vehicles))"

text \<open>
  The file system as the exporters meet it: whether \<open>os.Create\<close> fails for a name,
  whether \<open>file.Write\<close> on that file fails, whether the k-th call of \<open>csv.Writer.Write\<close> on
  that file returns an error (the header is call 0), and whether the final \<open>Flush\<close> of the
  buffered \<open>csv.Writer\<close> fails to bring the buffer to the file.
\<close>

record files =
  createFails :: "string \<Rightarrow> bool"
  writeFails :: "string \<Rightarrow> bool"
  csvWriteFails :: "string \<Rightarrow> nat \<Rightarrow> bool"
  flushFails :: "string \<Rightarrow> bool"

datatype export_error =
    CannotCreateDestination   \<comment> \<open>failed to create JSON file, failed to create CSV file\<close>
  | WriteFailure              \<comment> \<open>failed to write JSON to file, failed to write header/row to CSV\<close>

text \<open>
  What a call leaves at its destination: nothing changed, a file that was created but does
  not hold the whole output, or the whole output.
\<close>

datatype 'a destination = Untouched | Incomplete | Holds 'a

text \<open>
  An exporter returns its \<open>error\<close> (\<open>None\<close> for \<open>nil\<close>); the model adds what is at the
  destination afterwards and the lines printed on the console.
\<close>

definition saveVehiclesToJSON ::
  "files \<Rightarrow> Vehicle list \<Rightarrow> string \<Rightarrow> export_error option \<times> json destination \<times> string list" where
  "saveVehiclesToJSON fs vehicles filename =
     (let jsonData = marshalIndent vehicles in
      if createFails fs filename then (Some CannotCreateDestination, Untouched, [])
      else if writeFails fs filename then (Some WriteFailure, Incomplete, [])
      else (None, Holds jsonData, [''Vehicles data saved to '' @ filename]))"

text \<open>
  The loop of lines 152 to 162: \<open>written\<close> are the rows handed to the writer so far,
  \<open>k\<close> counts the calls of \<open>writer.Write\<close>. \<open>None\<close> is the early return of line 160.
\<close>

fun writeRows ::
  "(nat \<Rightarrow> bool) \<Rightarrow> nat \<Rightarrow> Vehicle list \<Rightarrow> string list list \<Rightarrow> string list list option" where
  "writeRows fails k [] written = Some written"
| "writeRows fails k (vehicle # vehicles) written =
     (let row = [Make vehicle, Model vehicle, Year vehicle, itoa (sint (Cylinders vehicle))]
      in if fails k then None
         else writeRows fails (Suc k) vehicles (written @ [row]))"

text \<open>
  \<open>defer writer.Flush()\<close> runs on every return after the writer exists. \<open>Flush\<close> returns
  nothing and the function never asks \<open>writer.Error()\<close>, so the outcome of the flush
  reaches the destination but not the returned error.
\<close>

definition saveVehiclesToCSV ::
  "files \<Rightarrow> Vehicle list \<Rightarrow> string \<Rightarrow>
   export_error option \<times> string list list destination \<times> string list" where
  "saveVehiclesToCSV fs vehicles filename =
     (if createFails fs filename then (Some CannotCreateDestination, Untouched, [])
      else
        let header = [''Make'', ''Model'', ''Year'', ''Cylinders''] in
        if csvWriteFails fs filename 0 then (Some WriteFailure, Incomplete, [])
        else
          (case writeRows (csvWriteFails fs filename) 1 vehicles [header] of
             None \<Rightarrow> (Some WriteFailure, Incomplete, [])
           | Some rows \<Rightarrow>
               (None, if flushFails fs filename then Incomplete else Holds rows,
                [''Vehicles data saved to '' @ filename])))"

section \<open>The program (main, lines 168 to 254)\<close>

text \<open>
  Standard input is an abstract state \<open>'s\<close>. \<open>scanString s\<close> and \<open>scanInt s\<close> give the value
  that a variable just reset to its zero value holds after \<open>fmt.Scanln\<close>, and the input
  that is left. Each of the four \<open>for\<close> loops resets its variable, scans it and
  leaves when the value is acceptable; nothing bounds the number of rounds.
\<close>

partial_function (option) askUntil ::
  "('s \<Rightarrow> 'a \<times> 's) \<Rightarrow> ('a \<Rightarrow> bool) \<Rightarrow> 's \<Rightarrow> ('a \<times> 's) option" where
  "askUntil scan acceptable s =
     (case scan s of (v, s') \<Rightarrow> if acceptable v then Some (v, s') else askUntil scan acceptable s')"

definition yearOk :: "go_int \<Rightarrow> bool" where
  "yearOk year = (year = 0 \<or> (1980 \<le> sint year \<and> sint year \<le> 2025))"

definition cylindersOk :: "go_int \<Rightarrow> bool" where
  "cylindersOk cylinders =
     ((cylinders = 0 \<or> (3 \<le> sint cylinders \<and> sint cylinders \<le> 6))
      \<or> cylinders = 8 \<or> cylinders = 10 \<or> cylinders = 12 \<or> cylinders = 16)"

definition resultNbOk :: "go_int \<Rightarrow> bool" where
  "resultNbOk resultNb = (0 \<le> sint resultNb \<and> sint resultNb \<le> 50)"

definition sortOk :: "string \<Rightarrow> bool" where
  "sortOk sort' =
     (sort' = [] \<or> sort' = ''make'' \<or> sort' = ''model'' \<or> sort' = ''year''
      \<or> sort' = ''cylinders'')"

text \<open>The arguments of the call of line 228, in the order of the parameters.\<close>

record criteria =
  make_arg :: string
  model_arg :: string
  sort_arg :: string
  year_arg :: go_int
  cylinders_arg :: go_int
  resultNb_arg :: go_int

definition readCriteria ::
  "('s \<Rightarrow> string \<times> 's) \<Rightarrow> ('s \<Rightarrow> go_int \<times> 's) \<Rightarrow> 's \<Rightarrow> criteria option" where
  "readCriteria scanString scanInt s0 =
     (case scanString s0 of (make', s1) \<Rightarrow>
       (case (if make' \<noteq> [] then scanString s1 else ([], s1)) of (model', s2) \<Rightarrow>
         (case askUntil scanInt yearOk s2 of
            None \<Rightarrow> None
          | Some (year, s3) \<Rightarrow>
             (case askUntil scanInt cylindersOk s3 of
                None \<Rightarrow> None
              | Some (cylinders, s4) \<Rightarrow>
                 (case askUntil scanInt resultNbOk s4 of
                    None \<Rightarrow> None
                  | Some (resultNb, s5) \<Rightarrow>
                     (case askUntil scanString sortOk s5 of
                        None \<Rightarrow> None
                      | Some (sort', s6) \<Rightarrow>
                          Some \<lparr>make_arg = make', model_arg = model', sort_arg = sort',
                                year_arg = year, cylinders_arg = cylinders,
                                resultNb_arg = resultNb\<rparr>))))))"

text \<open>The loop of lines 238 to 240, one console line per vehicle.\<close>

fun printVehicles :: "Vehicle list \<Rightarrow> string list \<Rightarrow> string list" where
  "printVehicles [] console = console"
| "printVehicles (v # vehicles) console =
     printVehicles vehicles
       (console @ [''Make: '' @ Make v @ '', Model: '' @ Model v @ '', Year: '' @ Year v
                   @ '', Cylinders: '' @ itoa (sint (Cylinders v))])"

text \<open>
  Lines 233 to 253. A console entry is a printed line, or the line that reports the error
  of an exporter (\<open>fmt.Println("Error saving to JSON:", err)\<close>).
\<close>

datatype entry = Line string | ErrorLine string export_error

record report =
  console :: "entry list"
  jsonFile :: "json destination"
  csvFile :: "string list list destination"

definition display :: "files \<Rightarrow> Vehicle list \<Rightarrow> report" where
  "display fs vehicles =
     (if length vehicles = 0
      then \<lparr>console = [Line ''No vehicles found for the given criteria.''],
            jsonFile = Untouched, csvFile = Untouched\<rparr>
      else
        let out = map Line (printVehicles vehicles [''Vehicles found:'']) in
        case saveVehiclesToJSON fs vehicles ''vehicles.json'' of (err, json', printed) \<Rightarrow>
        let out = out @ map Line printed;
            out = (case err of None \<Rightarrow> out
                   | Some e \<Rightarrow> out @ [ErrorLine ''Error saving to JSON:'' e]) in
        case saveVehiclesToCSV fs vehicles ''vehicles.csv'' of (err, csv', printed) \<Rightarrow>
        let out = out @ map Line printed;
            out = (case err of None \<Rightarrow> out
                   | Some e \<Rightarrow> out @ [ErrorLine ''Error saving to CSV:'' e])
        in \<lparr>console = out, jsonFile = json', csvFile = csv'\<rparr>)"

text \<open>
  How a run of \<open>main\<close> ends: \<open>log.Fatalf\<close> on an error of \<open>fetchVehicles\<close> (exit status 1),
  the crash of an unrecovered panic, or the normal return after the report. \<open>None\<close> is
  a run that asks for input forever.
\<close>

datatype run = Fatal error | Crashed | Returned report

definition main ::
  "env \<Rightarrow> files \<Rightarrow> ('s \<Rightarrow> string \<times> 's) \<Rightarrow> ('s \<Rightarrow> go_int \<times> 's) \<Rightarrow> 's \<Rightarrow> run option" where
  "main e fs scanString scanInt stdin =
     (case readCriteria scanString scanInt stdin of
        None \<Rightarrow> None
      | Some c \<Rightarrow>
          Some (case fetchVehicles e (make_arg c) (model_arg c) (sort_arg c) (year_arg c)
                       (cylinders_arg c) (resultNb_arg c) of
                  Inl Panic \<Rightarrow> Crashed
                | Inl err \<Rightarrow> Fatal err
                | Inr vehicles \<Rightarrow> Returned (display fs vehicles)))"

section \<open>The notions of the specification, and examples\<close>

subsection \<open>The query as the specification describes it\<close>

text \<open>
  A clause is one \<open>key=value\<close> fragment appended to the query string. The specification
  lists six kinds of clause and says which of them a FilterCriteria gives rise to;
  \<open>queryClauses\<close> follows these words, \<open>buildURL\<close> above follows the code.
\<close>

datatype clause =
    Rows string
  | Sort string
  | RefineMake string
  | RefineModel string
  | RefineYear string
  | RefineCylinders string

fun param :: "clause \<Rightarrow> string" where
  "param (Rows v) = ''rows='' @ v"
| "param (Sort v) = ''sort='' @ v"
| "param (RefineMake v) = ''refine.make='' @ v"
| "param (RefineModel v) = ''refine.model='' @ v"
| "param (RefineYear v) = ''refine.year='' @ v"
| "param (RefineCylinders v) = ''refine.cylinders='' @ v"

definition render :: "clause \<Rightarrow> string" where
  "render c = CHR ''&'' # param c"

fun position :: "clause \<Rightarrow> nat" where
  "position (Rows v) = 0"
| "position (Sort v) = 1"
| "position (RefineMake v) = 2"
| "position (RefineModel v) = 3"
| "position (RefineYear v) = 4"
| "position (RefineCylinders v) = 5"

definition queryClauses ::
  "string \<Rightarrow> string \<Rightarrow> string \<Rightarrow> go_int \<Rightarrow> go_int \<Rightarrow> go_int \<Rightarrow> clause list" where
  "queryClauses make' model' sortField year cylinders resultLimit =
     [Rows (if resultLimit \<noteq> 0 then itoa (sint resultLimit) else ''10'')]
     @ (if sortField \<noteq> [] then [Sort sortField] else [])
     @ (if make' \<noteq> [] then [RefineMake make'] else [])
     @ (if model' \<noteq> [] then [RefineModel model'] else [])
     @ (if year \<noteq> 0 then [RefineYear (itoa (sint year))] else [])
     @ (if cylinders \<noteq> 0 then [RefineCylinders (itoa (sint cylinders))] else [])"

text \<open>
  A clause that is neither a make nor a model refinement and whose value holds no
  ampersand: it cannot pass for another clause in the text of the query.
\<close>

fun plain :: "clause \<Rightarrow> bool" where
  "plain (Rows v) = (CHR ''&'' \<notin> set v)"
| "plain (Sort v) = (CHR ''&'' \<notin> set v)"
| "plain (RefineMake v) = False"
| "plain (RefineModel v) = False"
| "plain (RefineYear v) = (CHR ''&'' \<notin> set v)"
| "plain (RefineCylinders v) = (CHR ''&'' \<notin> set v)"

text \<open>
  The query string as its reader sees it: the text split at every ampersand, and the
  presence of a parameter with a given key among the pieces.
\<close>

fun splitAmp :: "string \<Rightarrow> string list" where
  "splitAmp [] = [[]]"
| "splitAmp (c # cs) =
     (if c = CHR ''&'' then [] # splitAmp cs
      else (case splitAmp cs of [] \<Rightarrow> [[c]] | piece # pieces \<Rightarrow> (c # piece) # pieces))"

definition hasParam :: "string \<Rightarrow> string \<Rightarrow> bool" where
  "hasParam key url = (\<exists>piece \<in> set (splitAmp url). prefix (key @ ''='') piece)"

subsection \<open>Decoding as the specification describes it\<close>

text \<open>
  The specification reads a text field as the text under the key, or the empty string
  when the key is absent or not text-typed, and the cylinders field as the number under
  the key truncated towards zero, or 0 when the key is absent or not numeric. An element
  of the records sequence is usable when it holds a \<open>fields\<close> sub-mapping.
\<close>

definition textField :: "(string \<times> json) list \<Rightarrow> string \<Rightarrow> string" where
  "textField data key = (case map_of data key of Some (JString s) \<Rightarrow> s | _ \<Rightarrow> [])"

definition numberField :: "(string \<times> json) list \<Rightarrow> string \<Rightarrow> int" where
  "numberField data key = (case map_of data key of Some (JNumber f) \<Rightarrow> trunc f | _ \<Rightarrow> 0)"

fun isObject :: "json \<Rightarrow> bool" where
  "isObject (JObject m) = True"
| "isObject _ = False"

fun usableFields :: "json \<Rightarrow> (string \<times> json) list option" where
  "usableFields (JObject m) =
     (case map_of m ''fields'' of Some (JObject data) \<Rightarrow> Some data | _ \<Rightarrow> None)"
| "usableFields _ = None"

definition vehicleOfFields :: "(real \<Rightarrow> go_int) \<Rightarrow> (string \<times> json) list \<Rightarrow> Vehicle" where
  "vehicleOfFields oor data =
     \<lparr>Make = textField data ''make'', Model = textField data ''model'',
      Year = textField data ''year'',
      Cylinders = (case map_of data ''cylinders'' of
                     Some (JNumber f) \<Rightarrow> float64ToInt oor f
                   | _ \<Rightarrow> 0)\<rparr>"

text \<open>
  The payload of the specification's example: one element with a complete \<open>fields\<close>
  object and one element without \<open>fields\<close>; and elements that are not objects.
\<close>

definition corolla :: json where
  "corolla =
     JObject [(''fields'', JObject [(''make'', JString ''Toyota''), (''model'', JString ''Corolla''),
                                    (''year'', JString ''2020''), (''cylinders'', JNumber 4)])]"

text \<open>
  What the conversion instruction of x86-64 leaves for a value out of range: the least
  64-bit integer.
\<close>

definition amd64 :: "real \<Rightarrow> go_int" where
  "amd64 f = 0x8000000000000000"

text \<open>
  An API that answers every request with status 200 and a body whose records sequence
  holds \<open>null\<close>.
\<close>

definition nullBody :: string where
  \<open>nullBody = ''{"records":[null]}''\<close>

definition nullRecord :: env where
  "nullRecord =
     \<lparr>httpGet = (\<lambda>url. Response 200 (ReadAll nullBody)),
      jsonDecode = (\<lambda>body. if body = nullBody
                            then Some (JObject [(''records'', JArray [JNull])]) else None),
      outOfRange = amd64\<rparr>"

subsection \<open>Fetch status, output and re-reading as the specification describes them\<close>

text \<open>The successful class of HTTP status codes (2xx).\<close>

definition httpSuccess :: "int \<Rightarrow> bool" where
  "httpSuccess code = (200 \<le> code \<and> code < 300)"

definition noContent :: env where
  "noContent =
     \<lparr>httpGet = (\<lambda>url. Response 204 (ReadAll [])),
      jsonDecode = (\<lambda>body. None),
      outOfRange = amd64\<rparr>"

text \<open>The console line, the CSV row and the CSV header of the specification.\<close>

definition consoleLine :: "Vehicle \<Rightarrow> string" where
  "consoleLine v =
     ''Make: '' @ Make v @ '', Model: '' @ Model v @ '', Year: '' @ Year v
     @ '', Cylinders: '' @ itoa (sint (Cylinders v))"

definition csvHeader :: "string list" where
  "csvHeader = [''Make'', ''Model'', ''Year'', ''Cylinders'']"

definition csvRow :: "Vehicle \<Rightarrow> string list" where
  "csvRow v = [Make v, Model v, Year v, itoa (sint (Cylinders v))]"

text \<open>
  Re-reading the exported documents. Decimal text is read back as an integer: an optional
  minus sign, then one or more decimal digits. A row is read back as a record when it has
  four columns and the fourth is an integer; an object when it has the four members, the
  first three text and the fourth an integral number; 64-bit integers wrap as \<open>int\<close> does.
\<close>

definition digitValue :: "char \<Rightarrow> nat option" where
  "digitValue c =
     (let n = (of_char c :: nat) in if 48 \<le> n \<and> n \<le> 57 then Some (n - 48) else None)"

fun parseDigits :: "string \<Rightarrow> nat \<Rightarrow> nat option" where
  "parseDigits [] acc = Some acc"
| "parseDigits (c # cs) acc =
     (case digitValue c of None \<Rightarrow> None | Some d \<Rightarrow> parseDigits cs (10 * acc + d))"

definition atoi :: "string \<Rightarrow> int option" where
  "atoi s =
     (case s of
        [] \<Rightarrow> None
      | c # cs \<Rightarrow>
          if c = CHR ''-''
          then (if cs = [] then None else map_option (\<lambda>n. - int n) (parseDigits cs 0))
          else map_option int (parseDigits s 0))"





text \<open>
  Example destinations: a directory in which \<open>vehicles.json\<close> cannot be created while
  \<open>vehicles.csv\<close> can be written, and a full device, on which files are created but no
  data can be written: the rows of a short output then all fit the writer's buffer, and
  it is the final flush that fails.
\<close>

definition toyota :: Vehicle where
  "toyota = \<lparr>Make = ''Toyota'', Model = ''Corolla'', Year = ''2020'', Cylinders = 4\<rparr>"

definition jsonDenied :: files where
  "jsonDenied =
     \<lparr>createFails = (\<lambda>name. name = ''vehicles.json''),
      writeFails = (\<lambda>name. False),
      csvWriteFails = (\<lambda>name k. False),
      flushFails = (\<lambda>name. False)\<rparr>"

definition fullDevice :: files where
  "fullDevice =
     \<lparr>createFails = (\<lambda>name. False),
      writeFails = (\<lambda>name. True),
      csvWriteFails = (\<lambda>name k. False),
      flushFails = (\<lambda>name. True)\<rparr>"

definition civic :: json where
  "civic =
     JObject [(''fields'', JObject [(''make'', JString ''Honda''), (''model'', JString ''Civic''),
                                    (''year'', JString ''2015''), (''cylinders'', JNumber 4)])]"

definition honda :: Vehicle where
  "honda = \<lparr>Make = ''Honda'', Model = ''Civic'', Year = ''2015'', Cylinders = 4\<rparr>"

text \<open>
  An example session: an API that serves one record, and a terminal at which every
  \<open>Scanln\<close> consumes one typed line (an integer is read from its decimal text, and a line
  that is not an integer leaves the variable at 0).
\<close>

definition civicBody :: string where
  \<open>civicBody =
     ''{"records":[{"fields":{"make":"Honda","model":"Civic","year":"2015","cylinders":4}}]}''\<close>

definition served :: env where
  "served =
     \<lparr>httpGet = (\<lambda>url. Response 200 (ReadAll civicBody)),
      jsonDecode = (\<lambda>body. if body = civicBody
                            then Some (JObject [(''records'', JArray [civic])]) else None),
      outOfRange = amd64\<rparr>"

definition typedString :: "string list \<Rightarrow> string \<times> string list" where
  "typedString s = (case s of [] \<Rightarrow> ([], []) | x # xs \<Rightarrow> (x, xs))"

definition typedInt :: "string list \<Rightarrow> go_int \<times> string list" where
  "typedInt s =
     (case s of
        [] \<Rightarrow> (0, [])
      | x # xs \<Rightarrow> (case atoi x of None \<Rightarrow> (0, xs) | Some n \<Rightarrow> (word_of_int n, xs)))"

section \<open>Decimal text holds digits only\<close>

lemma digit_in: "d < 10 \<Longrightarrow> digit d \<in> set ''0123456789''"
  unfolding digit_def by (rule nth_mem) simp

lemma digits_set: "set (digits n) \<subseteq> set ''0123456789''"
proof (induction n rule: digits.induct)
  case (1 n)
  show ?case
  proof (cases "n < 10")
    case True
    then have "digit n \<in> set ''0123456789''" by (rule digit_in)
    with True show ?thesis by (subst digits.simps) simp
  next
    case False
    have "digit (n mod 10) \<in> set ''0123456789''" by (rule digit_in) simp
    with False 1 show ?thesis by (subst digits.simps) simp
  qed
qed

lemma itoa_no_ampersand: "CHR ''&'' \<notin> set (itoa i)"
  using digits_set [of "nat i"] digits_set [of "nat (- i)"] by (auto simp: itoa_def)

section \<open>Properties of the query\<close>

lemma optional_clause:
  "x \<in> set (if c then [y] else []) \<longleftrightarrow> c \<and> x = y"
  "(\<forall>x \<in> set (if c then [y] else []). Q x) \<longleftrightarrow> (c \<longrightarrow> Q y)"
  "sorted_wrt R (if c then [y] else [])"
  "concat (map f (if c then [y] else [])) = (if c then f y else [])"
  by auto

lemma optional_append:
  "(if c then a @ x else a) = a @ (if c then x else [])"
  "(if c then a @ x else a @ z) = a @ (if c then x else z)"
  by simp_all

lemma buildURL_clauses:
  "buildURL mk md so yr cy n = apiBase @ concat (map render (queryClauses mk md so yr cy n))"
proof -
  have rows: "render (Rows (if n \<noteq> 0 then itoa (sint n) else ''10''))
      = (if n \<noteq> 0 then ''&rows='' @ sprintf_d n else ''&rows=10'')"
    by (simp add: render_def sprintf_d_def)
  have other: "render (Sort so) = ''&sort='' @ so"
    "render (RefineMake mk) = ''&refine.make='' @ mk"
    "render (RefineModel md) = ''&refine.model='' @ md"
    "render (RefineYear (itoa (sint yr))) = ''&refine.year='' @ sprintf_d yr"
    "render (RefineCylinders (itoa (sint cy))) = ''&refine.cylinders='' @ sprintf_d cy"
    by (simp_all add: render_def sprintf_d_def)
  show ?thesis
    unfolding buildURL_def queryClauses_def Let_def
    by (simp only: optional_append optional_clause map_append concat_append append_assoc
        list.map concat.simps append_Nil2 rows other)
qed

lemma queryClauses_ordered:
  "sorted_wrt (\<lambda>a b. position a < position b) (queryClauses mk md so yr cy n)"
  by (auto simp: queryClauses_def sorted_wrt_append optional_clause split del: if_split)

lemma queryClauses_mem:
  "x \<in> set (queryClauses mk md so yr cy n) \<longleftrightarrow>
     x = Rows (if n \<noteq> 0 then itoa (sint n) else ''10'')
     \<or> (so \<noteq> [] \<and> x = Sort so)
     \<or> (mk \<noteq> [] \<and> x = RefineMake mk)
     \<or> (md \<noteq> [] \<and> x = RefineModel md)
     \<or> (yr \<noteq> 0 \<and> x = RefineYear (itoa (sint yr)))
     \<or> (cy \<noteq> 0 \<and> x = RefineCylinders (itoa (sint cy)))"
  by (auto simp: queryClauses_def optional_clause split del: if_split)

lemma splitAmp_not_Nil: "splitAmp s \<noteq> []"
  by (induction s) (simp_all split: list.splits)

lemma splitAmp_ampersand: "splitAmp (a @ CHR ''&'' # b) = splitAmp a @ splitAmp b"
proof (induction a)
  case Nil
  show ?case by simp
next
  case (Cons c a)
  obtain piece pieces where "splitAmp a = piece # pieces"
    using splitAmp_not_Nil [of a] by (cases "splitAmp a") simp_all
  with Cons show ?case by simp
qed

lemma splitAmp_plain: "CHR ''&'' \<notin> set s \<Longrightarrow> splitAmp s = [s]"
  by (induction s) auto

lemma splitAmp_render:
  "\<forall>c \<in> set cs. CHR ''&'' \<notin> set (param c) \<Longrightarrow>
   splitAmp (a @ concat (map render cs)) = splitAmp a @ map param cs"
proof (induction cs arbitrary: a)
  case Nil
  show ?case by simp
next
  case (Cons c cs)
  then have c: "CHR ''&'' \<notin> set (param c)" and cs: "\<forall>c \<in> set cs. CHR ''&'' \<notin> set (param c)"
    by simp_all
  have "splitAmp (a @ concat (map render (c # cs)))
      = splitAmp ((a @ CHR ''&'' # param c) @ concat (map render cs))"
    by (simp add: render_def)
  also have "\<dots> = splitAmp (a @ CHR ''&'' # param c) @ map param cs"
    by (rule Cons.IH [OF cs])
  also have "splitAmp (a @ CHR ''&'' # param c) = splitAmp a @ [param c]"
    by (simp only: splitAmp_ampersand splitAmp_plain [OF c])
  finally show ?case by simp
qed

lemma splitAmp_apiBase:
  "splitAmp apiBase =
     [''https://public.opendatasoft.com/api/records/1.0/search/?dataset=all-vehicles-model'',
      ''q='']"
  by (simp add: apiBase_def)

lemma queryClauses_no_ampersand:
  assumes "CHR ''&'' \<notin> set mk \<union> set md \<union> set so"
  shows "\<forall>c \<in> set (queryClauses mk md so yr cy n). CHR ''&'' \<notin> set (param c)"
proof
  fix c
  assume "c \<in> set (queryClauses mk md so yr cy n)"
  then consider "c = Rows (if n \<noteq> 0 then itoa (sint n) else ''10'')" | "c = Sort so"
    | "c = RefineMake mk" | "c = RefineModel md" | "c = RefineYear (itoa (sint yr))"
    | "c = RefineCylinders (itoa (sint cy))"
    unfolding queryClauses_mem by blast
  then show "CHR ''&'' \<notin> set (param c)"
    using assms by cases (simp_all add: itoa_no_ampersand)
qed

lemma splitAmp_buildURL:
  assumes "CHR ''&'' \<notin> set mk \<union> set md \<union> set so"
  shows "splitAmp (buildURL mk md so yr cy n)
     = [''https://public.opendatasoft.com/api/records/1.0/search/?dataset=all-vehicles-model'',
        ''q=''] @ map param (queryClauses mk md so yr cy n)"
  unfolding buildURL_clauses
  by (simp only: splitAmp_render [OF queryClauses_no_ampersand [OF assms]] splitAmp_apiBase)

lemma prefix_param:
  "prefix ''rows='' (param c) \<longleftrightarrow> (\<exists>v. c = Rows v)"
  "prefix ''sort='' (param c) \<longleftrightarrow> (\<exists>v. c = Sort v)"
  "prefix ''refine.make='' (param c) \<longleftrightarrow> (\<exists>v. c = RefineMake v)"
  "prefix ''refine.model='' (param c) \<longleftrightarrow> (\<exists>v. c = RefineModel v)"
  "prefix ''refine.year='' (param c) \<longleftrightarrow> (\<exists>v. c = RefineYear v)"
  "prefix ''refine.cylinders='' (param c) \<longleftrightarrow> (\<exists>v. c = RefineCylinders v)"
  by (cases c; simp)+

lemma hasParam_buildURL:
  assumes "CHR ''&'' \<notin> set mk \<union> set md \<union> set so"
  shows "hasParam ''rows'' (buildURL mk md so yr cy n)"
    and "hasParam ''sort'' (buildURL mk md so yr cy n) \<longleftrightarrow> so \<noteq> []"
    and "hasParam ''refine.make'' (buildURL mk md so yr cy n) \<longleftrightarrow> mk \<noteq> []"
    and "hasParam ''refine.model'' (buildURL mk md so yr cy n) \<longleftrightarrow> md \<noteq> []"
    and "hasParam ''refine.year'' (buildURL mk md so yr cy n) \<longleftrightarrow> yr \<noteq> 0"
    and "hasParam ''refine.cylinders'' (buildURL mk md so yr cy n) \<longleftrightarrow> cy \<noteq> 0"
  unfolding hasParam_def splitAmp_buildURL [OF assms]
  by (auto simp: prefix_param queryClauses_mem)

text \<open>
  Claim C1, as amended. For every FilterCriteria the built query is the base endpoint
  followed by the clauses of the criteria: exactly one rows clause, whose value is
  resultLimit in decimal when resultLimit is nonzero and the literal 10 otherwise; a sort,
  make, model, year or cylinders clause if and only if its own field is non-empty
  (non-zero), whatever the other fields are, carrying that field's value; all in the
  order rows, sort, make, model, year, cylinders. For every FilterCriteria whose make,
  model and sort field hold no ampersand, the text of the query, split at its ampersands,
  shows exactly these clauses after the endpoint, so that the query string contains a
  rows parameter, and a sort, make, model, year or cylinders parameter if and only if the
  corresponding field is non-empty (non-zero).
\<close>

theorem C1_query_clauses:
  "buildURL mk md so yr cy n = apiBase @ concat (map render (queryClauses mk md so yr cy n))
   \<and> {v. Rows v \<in> set (queryClauses mk md so yr cy n)}
       = {if n \<noteq> 0 then itoa (sint n) else ''10''}
   \<and> {v. Sort v \<in> set (queryClauses mk md so yr cy n)} = (if so \<noteq> [] then {so} else {})
   \<and> {v. RefineMake v \<in> set (queryClauses mk md so yr cy n)}
       = (if mk \<noteq> [] then {mk} else {})
   \<and> {v. RefineModel v \<in> set (queryClauses mk md so yr cy n)}
       = (if md \<noteq> [] then {md} else {})
   \<and> {v. RefineYear v \<in> set (queryClauses mk md so yr cy n)}
       = (if yr \<noteq> 0 then {itoa (sint yr)} else {})
   \<and> {v. RefineCylinders v \<in> set (queryClauses mk md so yr cy n)}
       = (if cy \<noteq> 0 then {itoa (sint cy)} else {})
   \<and> sorted_wrt (\<lambda>a b. position a < position b) (queryClauses mk md so yr cy n)
   \<and> (CHR ''&'' \<notin> set mk \<union> set md \<union> set so \<longrightarrow>
        splitAmp (buildURL mk md so yr cy n)
          = [''https://public.opendatasoft.com/api/records/1.0/search/?dataset=all-vehicles-model'',
             ''q=''] @ map param (queryClauses mk md so yr cy n)
        \<and> hasParam ''rows'' (buildURL mk md so yr cy n)
        \<and> (hasParam ''sort'' (buildURL mk md so yr cy n) \<longleftrightarrow> so \<noteq> [])
        \<and> (hasParam ''refine.make'' (buildURL mk md so yr cy n) \<longleftrightarrow> mk \<noteq> [])
        \<and> (hasParam ''refine.model'' (buildURL mk md so yr cy n) \<longleftrightarrow> md \<noteq> [])
        \<and> (hasParam ''refine.year'' (buildURL mk md so yr cy n) \<longleftrightarrow> yr \<noteq> 0)
        \<and> (hasParam ''refine.cylinders'' (buildURL mk md so yr cy n) \<longleftrightarrow> cy \<noteq> 0))"
proof (intro conjI impI)
  show "buildURL mk md so yr cy n
      = apiBase @ concat (map render (queryClauses mk md so yr cy n))"
    by (rule buildURL_clauses)
  show "{v. Rows v \<in> set (queryClauses mk md so yr cy n)}
      = {if n \<noteq> 0 then itoa (sint n) else ''10''}"
    by (auto simp: queryClauses_mem split del: if_split)
  show "{v. Sort v \<in> set (queryClauses mk md so yr cy n)}
      = (if so \<noteq> [] then {so} else {})"
    by (auto simp: queryClauses_mem)
  show "{v. RefineMake v \<in> set (queryClauses mk md so yr cy n)}
      = (if mk \<noteq> [] then {mk} else {})"
    by (auto simp: queryClauses_mem)
  show "{v. RefineModel v \<in> set (queryClauses mk md so yr cy n)}
      = (if md \<noteq> [] then {md} else {})"
    by (auto simp: queryClauses_mem)
  show "{v. RefineYear v \<in> set (queryClauses mk md so yr cy n)}
      = (if yr \<noteq> 0 then {itoa (sint yr)} else {})"
    by (auto simp: queryClauses_mem)
  show "{v. RefineCylinders v \<in> set (queryClauses mk md so yr cy n)}
      = (if cy \<noteq> 0 then {itoa (sint cy)} else {})"
    by (auto simp: queryClauses_mem)
  show "sorted_wrt (\<lambda>a b. position a < position b) (queryClauses mk md so yr cy n)"
    by (rule queryClauses_ordered)
next
  assume plain: "CHR ''&'' \<notin> set mk \<union> set md \<union> set so"
  show "splitAmp (buildURL mk md so yr cy n)
      = [''https://public.opendatasoft.com/api/records/1.0/search/?dataset=all-vehicles-model'',
         ''q=''] @ map param (queryClauses mk md so yr cy n)"
    by (rule splitAmp_buildURL [OF plain])
  show "hasParam ''rows'' (buildURL mk md so yr cy n)"
    by (rule hasParam_buildURL [OF plain])
  show "hasParam ''sort'' (buildURL mk md so yr cy n) \<longleftrightarrow> so \<noteq> []"
    by (rule hasParam_buildURL [OF plain])
  show "hasParam ''refine.make'' (buildURL mk md so yr cy n) \<longleftrightarrow> mk \<noteq> []"
    by (rule hasParam_buildURL [OF plain])
  show "hasParam ''refine.model'' (buildURL mk md so yr cy n) \<longleftrightarrow> md \<noteq> []"
    by (rule hasParam_buildURL [OF plain])
  show "hasParam ''refine.year'' (buildURL mk md so yr cy n) \<longleftrightarrow> yr \<noteq> 0"
    by (rule hasParam_buildURL [OF plain])
  show "hasParam ''refine.cylinders'' (buildURL mk md so yr cy n) \<longleftrightarrow> cy \<noteq> 0"
    by (rule hasParam_buildURL [OF plain])
qed

text \<open>
  The end-to-end scenario of the specification: make Honda, no model, sort by year,
  year 2015, 4 cylinders, 5 results.
\<close>

theorem C1_query_clauses_witness:
  "buildURL ''Honda'' [] ''year'' 2015 4 5
     = apiBase @ ''&rows=5&sort=year&refine.make=Honda&refine.year=2015&refine.cylinders=4''
   \<and> splitAmp (buildURL ''Honda'' [] ''year'' 2015 4 5)
     = [''https://public.opendatasoft.com/api/records/1.0/search/?dataset=all-vehicles-model'',
        ''q='', ''rows=5'', ''sort=year'', ''refine.make=Honda'', ''refine.year=2015'',
        ''refine.cylinders=4'']
   \<and> hasParam ''refine.make'' (buildURL ''Honda'' [] ''year'' 2015 4 5)
   \<and> \<not> hasParam ''refine.model'' (buildURL ''Honda'' [] ''year'' 2015 4 5)"
proof -
  have q: "queryClauses ''Honda'' [] ''year'' 2015 4 5
     = [Rows ''5'', Sort ''year'', RefineMake ''Honda'', RefineYear ''2015'',
        RefineCylinders ''4'']"
    by (simp add: queryClauses_def itoa_def digits.simps digit_def)
  have plain: "CHR ''&'' \<notin> set ''Honda'' \<union> set [] \<union> set ''year''"
    by simp
  note inst = C1_query_clauses [of "''Honda''" "[]" "''year''" 2015 4 5]
  from inst have "buildURL ''Honda'' [] ''year'' 2015 4 5
     = apiBase @ concat (map render (queryClauses ''Honda'' [] ''year'' 2015 4 5))"
    by (rule conjunct1)
  with q have a: "buildURL ''Honda'' [] ''year'' 2015 4 5
     = apiBase @ ''&rows=5&sort=year&refine.make=Honda&refine.year=2015&refine.cylinders=4''"
    by (simp add: render_def)
  from inst plain have "splitAmp (buildURL ''Honda'' [] ''year'' 2015 4 5)
     = [''https://public.opendatasoft.com/api/records/1.0/search/?dataset=all-vehicles-model'',
        ''q=''] @ map param (queryClauses ''Honda'' [] ''year'' 2015 4 5)"
    by blast
  with q have b: "splitAmp (buildURL ''Honda'' [] ''year'' 2015 4 5)
     = [''https://public.opendatasoft.com/api/records/1.0/search/?dataset=all-vehicles-model'',
        ''q='', ''rows=5'', ''sort=year'', ''refine.make=Honda'', ''refine.year=2015'',
        ''refine.cylinders=4'']"
    by simp
  from inst plain have c: "hasParam ''refine.make'' (buildURL ''Honda'' [] ''year'' 2015 4 5)"
    by blast
  from inst plain have d: "\<not> hasParam ''refine.model'' (buildURL ''Honda'' [] ''year'' 2015 4 5)"
    by blast
  from a b c d show ?thesis by (intro conjI)
qed

text \<open>
  The claim as written fails where a free-text field holds an ampersand: the field is
  embedded as it is, so the query built for the make \<open>x&refine.model=y\<close> and an empty
  model contains a model clause. It is the very query built for the make \<open>x\<close> and the
  model \<open>y\<close>.
\<close>

theorem C1_query_clauses_counterexample:
  "hasParam ''refine.model'' (buildURL ''x&refine.model=y'' [] [] 0 0 0)
   \<and> sublist ''&refine.model=y'' (buildURL ''x&refine.model=y'' [] [] 0 0 0)
   \<and> buildURL ''x&refine.model=y'' [] [] 0 0 0 = buildURL ''x'' ''y'' [] 0 0 0"
proof -
  have u: "buildURL ''x&refine.model=y'' [] [] 0 0 0
      = apiBase @ ''&rows=10&refine.make=x&refine.model=y''"
    by (simp add: buildURL_def)
  have v: "buildURL ''x'' ''y'' [] 0 0 0 = apiBase @ ''&rows=10&refine.make=x&refine.model=y''"
    by (simp add: buildURL_def)
  have "''&rows=10&refine.make=x&refine.model=y''
      = ''&rows=10'' @ CHR ''&'' # ''refine.make=x'' @ CHR ''&'' # ''refine.model=y''"
    by simp
  then have "splitAmp (apiBase @ ''&rows=10&refine.make=x&refine.model=y'')
      = splitAmp (apiBase @ ''&rows=10'') @ [''refine.make=x'', ''refine.model=y'']"
    by (simp only: append_assoc [symmetric] splitAmp_ampersand) simp
  then have "''refine.model=y'' \<in> set (splitAmp (buildURL ''x&refine.model=y'' [] [] 0 0 0))"
    by (simp add: u)
  then have a: "hasParam ''refine.model'' (buildURL ''x&refine.model=y'' [] [] 0 0 0)"
    unfolding hasParam_def by (rule bexI [rotated]) simp
  have "apiBase @ ''&rows=10&refine.make=x&refine.model=y''
      = (apiBase @ ''&rows=10&refine.make=x'') @ ''&refine.model=y'' @ []"
    by simp
  then have b: "sublist ''&refine.model=y'' (buildURL ''x&refine.model=y'' [] [] 0 0 0)"
    unfolding u by (simp only: sublist_appendI)
  from a b u v show ?thesis by simp
qed

section \<open>Properties of the collected criteria\<close>

lemma askUntil_acceptable:
  "askUntil scan acceptable s = Some r \<Longrightarrow> acceptable (fst r)"
proof (erule askUntil.raw_induct [where P = "\<lambda>sc ac st y. ac (fst y)", rotated], goal_cases)
  case (1 f sc ac st y)
  obtain v s' where sc: "sc st = (v, s')" by (cases "sc st")
  show ?case
  proof (cases "ac v")
    case True
    with 1(2) sc show ?thesis by auto
  next
    case False
    with 1(2) sc have "f sc ac s' = Some y" by simp
    then show ?thesis by (rule 1(1))
  qed
qed

text \<open>
  What holds of the arguments of every call of \<open>fetchVehicles\<close> that \<open>main\<close> makes: the
  model is empty when the make is, and sort field, year, cylinders and result limit have
  passed their checks.
\<close>

lemma readCriteria_checked:
  assumes "readCriteria scanString scanInt stdin = Some c"
  shows "(make_arg c = [] \<longrightarrow> model_arg c = []) \<and> sortOk (sort_arg c) \<and> yearOk (year_arg c)
    \<and> cylindersOk (cylinders_arg c) \<and> resultNbOk (resultNb_arg c)"
proof -
  obtain mk s1 where a: "scanString stdin = (mk, s1)" by (cases "scanString stdin")
  obtain md s2 where b: "(if mk \<noteq> [] then scanString s1 else ([], s1)) = (md, s2)"
    by (cases "if mk \<noteq> [] then scanString s1 else ([], s1)")
  from assms a b obtain yr s3 where y: "askUntil scanInt yearOk s2 = Some (yr, s3)"
    by (auto simp: readCriteria_def split: option.splits)
  from assms a b y obtain cy s4 where cyl: "askUntil scanInt cylindersOk s3 = Some (cy, s4)"
    by (auto simp: readCriteria_def split: option.splits)
  from assms a b y cyl obtain n s5 where nb: "askUntil scanInt resultNbOk s4 = Some (n, s5)"
    by (auto simp: readCriteria_def split: option.splits)
  from assms a b y cyl nb obtain so s6 where srt: "askUntil scanString sortOk s5 = Some (so, s6)"
    by (auto simp: readCriteria_def split: option.splits)
  from assms a b y cyl nb srt
  have c: "c = \<lparr>make_arg = mk, model_arg = md, sort_arg = so, year_arg = yr,
                 cylinders_arg = cy, resultNb_arg = n\<rparr>"
    by (simp add: readCriteria_def)
  from b have "mk = [] \<longrightarrow> md = []" by (auto split: if_splits)
  moreover from askUntil_acceptable [OF srt] have "sortOk so" by simp
  moreover from askUntil_acceptable [OF y] have "yearOk yr" by simp
  moreover from askUntil_acceptable [OF cyl] have "cylindersOk cy" by simp
  moreover from askUntil_acceptable [OF nb] have "resultNbOk n" by simp
  ultimately show ?thesis by (simp add: c)
qed

text \<open>An example session at the terminal: Honda, no model, 2015, 4 cylinders, 5 results, by year.\<close>

lemma readCriteria_session:
  "readCriteria typedString typedInt [''Honda'', [], ''2015'', ''4'', ''5'', ''year'']
     = Some \<lparr>make_arg = ''Honda'', model_arg = [], sort_arg = ''year'', year_arg = 2015,
             cylinders_arg = 4, resultNb_arg = 5\<rparr>"
proof -
  have y: "askUntil typedInt yearOk [''2015'', ''4'', ''5'', ''year'']
      = Some (2015, [''4'', ''5'', ''year''])"
    by (subst askUntil.simps)
      (simp add: typedInt_def atoi_def digitValue_def yearOk_def)
  have c: "askUntil typedInt cylindersOk [''4'', ''5'', ''year''] = Some (4, [''5'', ''year''])"
    by (subst askUntil.simps)
      (simp add: typedInt_def atoi_def digitValue_def cylindersOk_def)
  have n: "askUntil typedInt resultNbOk [''5'', ''year''] = Some (5, [''year''])"
    by (subst askUntil.simps)
      (simp add: typedInt_def atoi_def digitValue_def resultNbOk_def)
  have s: "askUntil typedString sortOk [''year''] = Some (''year'', [])"
    by (subst askUntil.simps) (simp add: typedString_def sortOk_def)
  show ?thesis
    by (simp add: readCriteria_def typedString_def y c n s)
qed

section \<open>Properties of the decoder\<close>

lemma index_fields_usable:
  "index m ''fields'' = JObject data \<longleftrightarrow> usableFields (JObject m) = Some data"
  by (auto simp: index_def split: option.splits json.splits)

lemma vehicleOfFields_eq:
  "\<lparr>Make = fst (assertString (index data ''make'')),
    Model = fst (assertString (index data ''model'')),
    Year = fst (assertString (index data ''year'')),
    Cylinders = float64ToInt oor (fst (assertFloat64 (index data ''cylinders'')))\<rparr>
   = vehicleOfFields oor data"
proof -
  have str: "fst (assertString (index data key)) = textField data key" for key
    by (simp add: assertString_def index_def textField_def split: option.splits json.splits)
  have zero: "float64ToInt oor 0 = 0"
    by (simp add: float64ToInt_def trunc_def)
  have num: "float64ToInt oor (fst (assertFloat64 (index data ''cylinders'')))
      = (case map_of data ''cylinders'' of Some (JNumber f) \<Rightarrow> float64ToInt oor f | _ \<Rightarrow> 0)"
    by (simp add: assertFloat64_def index_def zero split: option.splits json.splits)
  show ?thesis
    by (simp only: vehicleOfFields_def str num)
qed

lemma decodeRecords_usable:
  "usableFields r = Some data \<Longrightarrow>
   decodeRecords oor (r # rs) vs = decodeRecords oor rs (vs @ [vehicleOfFields oor data])"
proof (cases r)
  case (JObject m)
  assume "usableFields r = Some data"
  with JObject have "index m ''fields'' = JObject data"
    by (simp add: index_fields_usable)
  with JObject show ?thesis
    by (simp add: Let_def vehicleOfFields_eq)
qed simp_all

lemma decodeRecords_skip:
  "isObject r \<Longrightarrow> usableFields r = None \<Longrightarrow>
   decodeRecords oor (r # rs) vs = decodeRecords oor rs vs"
proof (cases r)
  case (JObject m)
  assume "usableFields r = None"
  with JObject have "\<nexists>data. index m ''fields'' = JObject data"
    by (simp add: index_fields_usable)
  with JObject show ?thesis
    by (cases "index m ''fields''") simp_all
qed simp_all

lemma decodeRecords_panic:
  "\<not> isObject r \<Longrightarrow> decodeRecords oor (r # rs) vs = Inl Panic"
  by (cases r) simp_all

declare decodeRecords.simps(2) [simp del]

text \<open>
  The loop as a whole: it panics exactly when some element is not an object, and
  otherwise appends the vehicles of the usable elements, in their order.
\<close>

lemma decodeRecords_eq:
  "decodeRecords oor rs vs =
     (if list_all isObject rs
      then Inr (vs @ map (vehicleOfFields oor) (List.map_filter usableFields rs))
      else Inl Panic)"
proof (induction rs arbitrary: vs)
  case Nil
  show ?case by simp
next
  case (Cons r rs)
  show ?case
  proof (cases "isObject r")
    case False
    then show ?thesis by (simp add: decodeRecords_panic)
  next
    case True
    show ?thesis
    proof (cases "usableFields r")
      case None
      with True Cons show ?thesis
        by (simp add: decodeRecords_skip)
    next
      case (Some data)
      with True Cons show ?thesis
        by (simp add: decodeRecords_usable)
    qed
  qed
qed

text \<open>
  Claim C2, evaluated. The payload of the specification's example decodes to the one
  record of its complete element: the element without \<open>fields\<close> is skipped. With an
  element that is not an object in place of the second one (\<open>null\<close>, a number, a text,
  a sequence), the loop panics instead of skipping it, and no record is returned at all.
\<close>

theorem C2_non_object_element_panics:
  "decodeRecords amd64 [corolla, JObject []] []
     = Inr [\<lparr>Make = ''Toyota'', Model = ''Corolla'', Year = ''2020'', Cylinders = 4\<rparr>]
   \<and> decodeRecords amd64 [corolla, JNull] [] = Inl Panic
   \<and> decodeRecords amd64 [corolla, JNumber 7] [] = Inl Panic
   \<and> decodeRecords amd64 [corolla, JString ''fields''] [] = Inl Panic
   \<and> decodeRecords amd64 [corolla, JArray []] [] = Inl Panic"
  by (simp add: decodeRecords_eq corolla_def vehicleOfFields_def
      textField_def float64ToInt_def trunc_def)

lemma float64ToInt_representable:
  "- (2 ^ 63) \<le> trunc f \<Longrightarrow> trunc f < 2 ^ 63 \<Longrightarrow> sint (float64ToInt oor f) = trunc f"
  by (simp add: float64ToInt_def sint_sbintrunc' signed_take_bit_int_eq_self)

lemma float64ToInt_unrepresentable:
  "trunc f < - (2 ^ 63) \<or> 2 ^ 63 \<le> trunc f \<Longrightarrow> sint (float64ToInt oor f) \<noteq> trunc f"
  using sint_ge [of "float64ToInt oor f"] sint_lt [of "float64ToInt oor f"] by auto

lemma cylinders_of_fields:
  "- (2 ^ 63) \<le> numberField data ''cylinders'' \<Longrightarrow> numberField data ''cylinders'' < 2 ^ 63 \<Longrightarrow>
   sint (Cylinders (vehicleOfFields oor data)) = numberField data ''cylinders''"
  by (auto simp: vehicleOfFields_def numberField_def float64ToInt_representable
      split: option.splits json.splits)

text \<open>
  Claim C3, as amended. For every usable \<open>fields\<close> mapping the decoder appends one
  record whose make, model and year are the texts under these keys, each the empty string
  when the key is absent or not text-typed, and whose cylinders are the number under the
  key truncated towards zero, 0 when the key is absent or not numeric, provided the
  truncated number is representable in the 64-bit \<open>int\<close>.
\<close>

theorem C3_field_extraction:
  assumes "usableFields r = Some data"
    and "- (2 ^ 63) \<le> numberField data ''cylinders''"
    and "numberField data ''cylinders'' < 2 ^ 63"
  shows "\<exists>c. decodeRecords oor [r] []
            = Inr [\<lparr>Make = textField data ''make'', Model = textField data ''model'',
                     Year = textField data ''year'', Cylinders = c\<rparr>]
          \<and> decodeRecords oor (r # rs) vs
            = decodeRecords oor rs
                (vs @ [\<lparr>Make = textField data ''make'', Model = textField data ''model'',
                         Year = textField data ''year'', Cylinders = c\<rparr>])
          \<and> sint c = numberField data ''cylinders''"
proof -
  let ?v = "vehicleOfFields oor data"
  have v: "?v = \<lparr>Make = textField data ''make'', Model = textField data ''model'',
         Year = textField data ''year'', Cylinders = Cylinders ?v\<rparr>"
    by (simp add: vehicleOfFields_def)
  have one: "decodeRecords oor [r] [] = Inr [?v]"
    using decodeRecords_usable [OF assms(1), of oor "[]" "[]"] by simp
  have more: "decodeRecords oor (r # rs) vs = decodeRecords oor rs (vs @ [?v])"
    by (rule decodeRecords_usable [OF assms(1)])
  have c: "sint (Cylinders ?v) = numberField data ''cylinders''"
    by (rule cylinders_of_fields [OF assms(2,3)])
  from one more c show ?thesis
    by (subst (asm) (1 2) v) blast
qed

theorem C3_field_extraction_witness:
  "\<exists>c. decodeRecords amd64
          [JObject [(''fields'', JObject [(''make'', JString ''Audi''), (''model'', JNumber 3),
                                          (''cylinders'', JNumber (- 9 / 2))])]] []
        = Inr [\<lparr>Make = ''Audi'', Model = [], Year = [], Cylinders = c\<rparr>]
      \<and> sint c = - 4"
proof -
  let ?data = "[(''make'', JString ''Audi''), (''model'', JNumber 3),
                (''cylinders'', JNumber (- 9 / 2))]"
  have n: "numberField ?data ''cylinders'' = - 4"
    by (simp add: numberField_def trunc_def)
  have u: "usableFields (JObject [(''fields'', JObject ?data)]) = Some ?data"
    by simp
  from C3_field_extraction [OF u, of amd64 "[]" "[]"] n
  show ?thesis by (auto simp: textField_def)
qed

text \<open>
  The claim as written fails where the number does not fit: for cylinders
  \<open>9223372036854775808\<close> (2 to the 63) the record holds what the processor's conversion
  leaves, the least 64-bit integer on x86-64, not the truncated number. No 64-bit result
  could equal it (\<open>float64ToInt_unrepresentable\<close>).
\<close>

theorem C3_field_extraction_counterexample:
  "decodeRecords amd64
      [JObject [(''fields'', JObject [(''cylinders'', JNumber 9223372036854775808)])]] []
     = Inr [\<lparr>Make = [], Model = [], Year = [], Cylinders = 0x8000000000000000\<rparr>]
   \<and> numberField [(''cylinders'', JNumber 9223372036854775808)] ''cylinders''
     = 9223372036854775808
   \<and> sint (0x8000000000000000 :: go_int) = - 9223372036854775808"
  by (simp add: decodeRecords_eq vehicleOfFields_def textField_def
      numberField_def float64ToInt_def trunc_def amd64_def)

lemma decodeBody_cases:
  "decodeBody e body =
     (case jsonDecode e body of
        None \<Rightarrow> Inl MalformedPayload
      | Some JNull \<Rightarrow> Inl UnexpectedShape
      | Some (JObject m) \<Rightarrow>
          (case map_of m ''records'' of
             Some (JArray records) \<Rightarrow>
               if list_all isObject records
               then Inr (map (vehicleOfFields (outOfRange e))
                           (List.map_filter usableFields records))
               else Inl Panic
           | _ \<Rightarrow> Inl UnexpectedShape)
      | Some _ \<Rightarrow> Inl MalformedPayload)"
  by (simp add: decodeBody_def unmarshalMap_def index_def decodeRecords_eq
      split: option.splits json.splits)

text \<open>
  Claim C4, evaluated. A body that parses to an object whose \<open>records\<close> member is a
  sequence passes both top-level steps; when an element of the sequence is \<open>null\<close> the
  decode nevertheless fails as a whole: \<open>fetchVehicles\<close> panics, and the run of the
  program ends in a crash rather than in a result or in one of the two decode errors.
\<close>

theorem C4_decode_fails_after_top_level:
  "unmarshalMap (jsonDecode nullRecord nullBody) = Inr [(''records'', JArray [JNull])]
   \<and> index [(''records'', JArray [JNull])] ''records'' = JArray [JNull]
   \<and> decodeBody nullRecord nullBody = Inl Panic
   \<and> fetchVehicles nullRecord ''Honda'' [] ''year'' 2015 4 5 = Inl Panic
   \<and> main nullRecord jsonDenied typedString typedInt
         [''Honda'', [], ''2015'', ''4'', ''5'', ''year''] = Some Crashed"
proof -
  have f: "fetchVehicles nullRecord mk md so yr cy n = Inl Panic" for mk md so yr cy n
    by (simp add: nullRecord_def unmarshalMap_def index_def decodeBody_def fetchVehicles_def
        fetchBody_def decodeRecords_panic)
  have "main nullRecord jsonDenied typedString typedInt
      [''Honda'', [], ''2015'', ''4'', ''5'', ''year''] = Some Crashed"
    by (simp add: main_def readCriteria_session f)
  then show ?thesis
    by (simp add: f) (simp add: nullRecord_def unmarshalMap_def index_def decodeBody_def
        decodeRecords_panic)
qed

section \<open>Properties of the fetch status\<close>

lemma decodeBody_not_fetch_error:
  "decodeBody e body \<noteq> Inl (RemoteStatus code)"
  "decodeBody e body \<noteq> Inl TransportGet"
  "decodeBody e body \<noteq> Inl TransportRead"
  by (simp_all add: decodeBody_cases split: option.splits json.splits)

text \<open>
  Claim C5, as amended. The fetch yields the body exactly when the response carries the
  status 200 and its body can be read; for every other status code, other codes of the
  successful class included, it returns the RemoteStatus error carrying that code, also
  as the result of \<open>fetchVehicles\<close>; a failure of the request or of reading the body
  returns a Transport error instead.
\<close>

theorem C5_fetch_status:
  "((\<exists>body. fetchBody e url = Inr body) \<longleftrightarrow> (\<exists>body. httpGet e url = Response 200 (ReadAll body)))
   \<and> (fetchBody e url = Inl (RemoteStatus code)
        \<longleftrightarrow> (\<exists>rd. httpGet e url = Response code rd) \<and> code \<noteq> 200)
   \<and> (fetchVehicles e mk md so yr cy n = Inl (RemoteStatus code)
        \<longleftrightarrow> (\<exists>rd. httpGet e (buildURL mk md so yr cy n) = Response code rd) \<and> code \<noteq> 200)
   \<and> (fetchBody e url = Inl TransportGet \<longleftrightarrow> httpGet e url = GetError)
   \<and> (fetchBody e url = Inl TransportRead \<longleftrightarrow> httpGet e url = Response 200 ReadError)"
proof (intro conjI)
  show "(\<exists>body. fetchBody e url = Inr body)
      \<longleftrightarrow> (\<exists>body. httpGet e url = Response 200 (ReadAll body))"
    by (auto simp: fetchBody_def split: get_result.splits read_result.splits if_splits)
  show "fetchBody e url = Inl (RemoteStatus code)
      \<longleftrightarrow> (\<exists>rd. httpGet e url = Response code rd) \<and> code \<noteq> 200"
    by (auto simp: fetchBody_def split: get_result.splits read_result.splits if_splits)
  show "fetchVehicles e mk md so yr cy n = Inl (RemoteStatus code)
      \<longleftrightarrow> (\<exists>rd. httpGet e (buildURL mk md so yr cy n) = Response code rd) \<and> code \<noteq> 200"
    by (auto simp: fetchVehicles_def fetchBody_def decodeBody_not_fetch_error
        split: get_result.splits read_result.splits if_splits)
  show "fetchBody e url = Inl TransportGet \<longleftrightarrow> httpGet e url = GetError"
    by (auto simp: fetchBody_def split: get_result.splits read_result.splits if_splits)
  show "fetchBody e url = Inl TransportRead \<longleftrightarrow> httpGet e url = Response 200 ReadError"
    by (auto simp: fetchBody_def split: get_result.splits read_result.splits if_splits)
qed

theorem C5_fetch_status_witness:
  "fetchVehicles noContent ''Honda'' [] [] 0 0 0 = Inl (RemoteStatus 204)
   \<and> fetchVehicles (noContent\<lparr>httpGet := (\<lambda>url. Response 500 ReadError)\<rparr>) ''Honda'' [] [] 0 0 0
     = Inl (RemoteStatus 500)"
proof -
  have a: "httpGet noContent (buildURL ''Honda'' [] [] 0 0 0) = Response 204 (ReadAll [])"
    by (simp add: noContent_def)
  have b: "httpGet (noContent\<lparr>httpGet := (\<lambda>url. Response 500 ReadError)\<rparr>)
      (buildURL ''Honda'' [] [] 0 0 0) = Response 500 ReadError"
    by simp
  from C5_fetch_status [of noContent _ 204 "''Honda''" "[]" "[]" 0 0 0] a
  have "fetchVehicles noContent ''Honda'' [] [] 0 0 0 = Inl (RemoteStatus 204)"
    by simp
  moreover
  from C5_fetch_status [of "noContent\<lparr>httpGet := (\<lambda>url. Response 500 ReadError)\<rparr>" _ 500
      "''Honda''" "[]" "[]" 0 0 0] b
  have "fetchVehicles (noContent\<lparr>httpGet := (\<lambda>url. Response 500 ReadError)\<rparr>)
      ''Honda'' [] [] 0 0 0 = Inl (RemoteStatus 500)"
    by simp
  ultimately show ?thesis by simp
qed

text \<open>
  The claim as written fails for the successful statuses other than 200: a response
  204 No Content carries a success status, and the fetch returns RemoteStatus 204.
\<close>

theorem C5_fetch_status_counterexample:
  "httpSuccess 204
   \<and> httpGet noContent (buildURL ''Honda'' [] [] 0 0 0) = Response 204 (ReadAll [])
   \<and> fetchBody noContent (buildURL ''Honda'' [] [] 0 0 0) = Inl (RemoteStatus 204)
   \<and> fetchVehicles noContent ''Honda'' [] [] 0 0 0 = Inl (RemoteStatus 204)"
  by (simp add: httpSuccess_def noContent_def fetchBody_def fetchVehicles_def)

section \<open>Properties of the console listing and of the exporters\<close>

lemma printVehicles_eq: "printVehicles vehicles out = out @ map consoleLine vehicles"
  by (induction vehicles arbitrary: out) (simp_all add: consoleLine_def)

lemma writeRows_eq:
  "writeRows fails k vehicles written =
     (if \<exists>i < length vehicles. fails (k + i) then None
      else Some (written @ map csvRow vehicles))"
proof (induction vehicles arbitrary: k written)
  case Nil
  show ?case by simp
next
  case (Cons v vehicles)
  have shift: "(\<exists>i < length (v # vehicles). fails (k + i))
      \<longleftrightarrow> fails k \<or> (\<exists>i < length vehicles. fails (Suc k + i))"
  proof
    assume "\<exists>i < length (v # vehicles). fails (k + i)"
    then obtain i where i: "i < Suc (length vehicles)" "fails (k + i)" by auto
    show "fails k \<or> (\<exists>i < length vehicles. fails (Suc k + i))"
    proof (cases i)
      case 0
      with i show ?thesis by simp
    next
      case (Suc j)
      with i have "j < length vehicles" "fails (Suc k + j)" by simp_all
      then show ?thesis by blast
    qed
  next
    assume "fails k \<or> (\<exists>i < length vehicles. fails (Suc k + i))"
    then show "\<exists>i < length (v # vehicles). fails (k + i)"
    proof
      assume "fails k"
      then have "0 < length (v # vehicles) \<and> fails (k + 0)" by simp
      then show ?thesis by blast
    next
      assume "\<exists>i < length vehicles. fails (Suc k + i)"
      then obtain j where "j < length vehicles" "fails (Suc k + j)" by blast
      then have "Suc j < length (v # vehicles) \<and> fails (k + Suc j)" by simp
      then show ?thesis by blast
    qed
  qed
  have step: "writeRows fails k (v # vehicles) written =
      (if fails k then None else writeRows fails (Suc k) vehicles (written @ [csvRow v]))"
    by (simp add: csvRow_def Let_def)
  show ?case
  proof (cases "fails k \<or> (\<exists>i < length vehicles. fails (Suc k + i))")
    case True
    then have "writeRows fails k (v # vehicles) written = None"
      by (auto simp only: step Cons.IH split: if_splits)
    with True shift show ?thesis by (simp only: if_True)
  next
    case False
    then have "writeRows fails k (v # vehicles) written
        = Some ((written @ [csvRow v]) @ map csvRow vehicles)"
      by (auto simp only: step Cons.IH split: if_splits)
    with False shift show ?thesis by simp
  qed
qed

lemma saveVehiclesToJSON_eq:
  "saveVehiclesToJSON fs vehicles filename =
     (if createFails fs filename then (Some CannotCreateDestination, Untouched, [])
      else if writeFails fs filename then (Some WriteFailure, Incomplete, [])
      else (None, Holds (if vehicles = [] then JNull else JArray (map vehicleObject vehicles)),
            [''Vehicles data saved to '' @ filename]))"
  by (simp add: saveVehiclesToJSON_def marshalIndent_def)

lemma saveVehiclesToCSV_eq:
  "saveVehiclesToCSV fs vehicles filename =
     (if createFails fs filename then (Some CannotCreateDestination, Untouched, [])
      else if \<exists>k \<le> length vehicles. csvWriteFails fs filename k
        then (Some WriteFailure, Incomplete, [])
      else (None,
            if flushFails fs filename then Incomplete
            else Holds (csvHeader # map csvRow vehicles),
            [''Vehicles data saved to '' @ filename]))"
proof -
  let ?fails = "csvWriteFails fs filename"
  have split: "(\<exists>k \<le> length vehicles. ?fails k)
      \<longleftrightarrow> ?fails 0 \<or> (\<exists>i < length vehicles. ?fails (Suc i))"
  proof
    assume "\<exists>k \<le> length vehicles. ?fails k"
    then obtain k where k: "k \<le> length vehicles" "?fails k" by blast
    show "?fails 0 \<or> (\<exists>i < length vehicles. ?fails (Suc i))"
    proof (cases k)
      case 0
      with k show ?thesis by simp
    next
      case (Suc j)
      with k have "j < length vehicles" "?fails (Suc j)" by simp_all
      then show ?thesis by blast
    qed
  next
    assume "?fails 0 \<or> (\<exists>i < length vehicles. ?fails (Suc i))"
    then show "\<exists>k \<le> length vehicles. ?fails k"
    proof
      assume "?fails 0"
      then have "0 \<le> length vehicles \<and> ?fails 0" by simp
      then show ?thesis by blast
    next
      assume "\<exists>i < length vehicles. ?fails (Suc i)"
      then obtain i where "i < length vehicles" "?fails (Suc i)" by blast
      then have "Suc i \<le> length vehicles \<and> ?fails (Suc i)" by simp
      then show ?thesis by blast
    qed
  qed
  have rows: "writeRows ?fails 1 vehicles [csvHeader] =
      (if \<exists>i < length vehicles. ?fails (Suc i) then None
       else Some (csvHeader # map csvRow vehicles))"
    by (simp add: writeRows_eq)
  show ?thesis
  proof (cases "\<exists>k \<le> length vehicles. ?fails k")
    case True
    with split have "?fails 0 \<or> (\<exists>i < length vehicles. ?fails (Suc i))"
      by blast
    then have "saveVehiclesToCSV fs vehicles filename =
        (if createFails fs filename then (Some CannotCreateDestination, Untouched, [])
         else (Some WriteFailure, Incomplete, []))"
      unfolding saveVehiclesToCSV_def Let_def csvHeader_def [symmetric] rows
      by (auto simp del: One_nat_def)
    with True show ?thesis by (simp only: if_True)
  next
    case False
    with split have "\<not> ?fails 0" "\<not> (\<exists>i < length vehicles. ?fails (Suc i))"
      by blast+
    then have "saveVehiclesToCSV fs vehicles filename =
        (if createFails fs filename then (Some CannotCreateDestination, Untouched, [])
         else (None,
            if flushFails fs filename then Incomplete
            else Holds (csvHeader # map csvRow vehicles),
            [''Vehicles data saved to '' @ filename]))"
      unfolding saveVehiclesToCSV_def Let_def csvHeader_def [symmetric] rows
      by (simp only: if_False option.case)
    with False show ?thesis by (simp only: if_False)
  qed
qed

text \<open>
  Claim C6. The records that the decoder returns are those of the usable elements of the
  records sequence, in the order of that sequence; the console listing has one line per
  record in the order of the records; the JSON document holds one object per record and
  the CSV document one row per record after the header, both in the order of the records.
\<close>

theorem C6_order_preserved:
  "(decodeRecords oor records [] = Inr vehicles
      \<longrightarrow> vehicles = map (vehicleOfFields oor) (List.map_filter usableFields records))
   \<and> printVehicles vehicles out = out @ map consoleLine vehicles
   \<and> (fst (snd (saveVehiclesToJSON fs vehicles filename)) = Holds doc
      \<longrightarrow> doc = (if vehicles = [] then JNull else JArray (map vehicleObject vehicles)))
   \<and> (fst (snd (saveVehiclesToCSV fs vehicles filename)) = Holds rows
      \<longrightarrow> rows = csvHeader # map csvRow vehicles)"
proof (intro conjI impI)
  assume "decodeRecords oor records [] = Inr vehicles"
  then show "vehicles = map (vehicleOfFields oor) (List.map_filter usableFields records)"
    by (simp add: decodeRecords_eq split: if_splits)
next
  show "printVehicles vehicles out = out @ map consoleLine vehicles"
    by (rule printVehicles_eq)
next
  assume "fst (snd (saveVehiclesToJSON fs vehicles filename)) = Holds doc"
  then show "doc = (if vehicles = [] then JNull else JArray (map vehicleObject vehicles))"
    by (simp add: saveVehiclesToJSON_eq split: if_splits)
next
  assume "fst (snd (saveVehiclesToCSV fs vehicles filename)) = Holds rows"
  then show "rows = csvHeader # map csvRow vehicles"
    by (simp add: saveVehiclesToCSV_eq split: if_splits)
qed

theorem C6_order_preserved_witness:
  "decodeRecords amd64 [corolla, JObject [], civic] [] = Inr [toyota, honda]
   \<and> [toyota, honda]
       = map (vehicleOfFields amd64) (List.map_filter usableFields [corolla, JObject [], civic])
   \<and> printVehicles [toyota, honda] [''Vehicles found:'']
       = [''Vehicles found:'', ''Make: Toyota, Model: Corolla, Year: 2020, Cylinders: 4'',
          ''Make: Honda, Model: Civic, Year: 2015, Cylinders: 4'']
   \<and> fst (snd (saveVehiclesToJSON jsonDenied [toyota, honda] ''out.json''))
       = Holds (JArray [vehicleObject toyota, vehicleObject honda])
   \<and> fst (snd (saveVehiclesToCSV jsonDenied [toyota, honda] ''vehicles.csv''))
       = Holds [[''Make'', ''Model'', ''Year'', ''Cylinders''],
                [''Toyota'', ''Corolla'', ''2020'', ''4''], [''Honda'', ''Civic'', ''2015'', ''4'']]"
proof -
  have four: "itoa 4 = ''4''"
    by (simp add: itoa_def digits.simps digit_def)
  have dec: "decodeRecords amd64 [corolla, JObject [], civic] [] = Inr [toyota, honda]"
    by (simp add: decodeRecords_eq corolla_def civic_def toyota_def honda_def
        vehicleOfFields_def textField_def float64ToInt_def trunc_def)
  have js: "fst (snd (saveVehiclesToJSON jsonDenied [toyota, honda] ''out.json''))
      = Holds (JArray [vehicleObject toyota, vehicleObject honda])"
    by (simp add: saveVehiclesToJSON_eq jsonDenied_def)
  have cs: "fst (snd (saveVehiclesToCSV jsonDenied [toyota, honda] ''vehicles.csv''))
      = Holds [csvHeader, csvRow toyota, csvRow honda]"
    by (simp add: saveVehiclesToCSV_eq jsonDenied_def)
  note inst = C6_order_preserved [of amd64 "[corolla, JObject [], civic]" "[toyota, honda]"
      "[''Vehicles found:'']" jsonDenied "''out.json''"
      "JArray [vehicleObject toyota, vehicleObject honda]"
      "[csvHeader, csvRow toyota, csvRow honda]"]
  from inst dec have a: "[toyota, honda]
      = map (vehicleOfFields amd64) (List.map_filter usableFields [corolla, JObject [], civic])"
    by (simp only:)
  from inst have "printVehicles [toyota, honda] [''Vehicles found:'']
      = [''Vehicles found:''] @ map consoleLine [toyota, honda]"
    by (simp only:)
  then have b: "printVehicles [toyota, honda] [''Vehicles found:'']
       = [''Vehicles found:'', ''Make: Toyota, Model: Corolla, Year: 2020, Cylinders: 4'',
          ''Make: Honda, Model: Civic, Year: 2015, Cylinders: 4'']"
    by (simp add: consoleLine_def toyota_def honda_def four)
  have c: "[csvHeader, csvRow toyota, csvRow honda]
      = [[''Make'', ''Model'', ''Year'', ''Cylinders''],
         [''Toyota'', ''Corolla'', ''2020'', ''4''], [''Honda'', ''Civic'', ''2015'', ''4'']]"
    by (simp add: csvHeader_def csvRow_def toyota_def honda_def four)
  from dec a b js cs c show ?thesis by (simp only:)
qed

text \<open>
  Claim C7. When \<open>fetchVehicles\<close> has returned a non-empty sequence, the run returns
  normally; what it leaves at \<open>vehicles.json\<close> and at \<open>vehicles.csv\<close> is what the JSON
  exporter and the CSV exporter leave there when called on the whole sequence, the CSV
  exporter being called whatever happened to the JSON file (whether creating it or
  writing it failed or not); and the error of either exporter is reported on the console.
\<close>

theorem C7_exporters_independent:
  assumes "readCriteria scanString scanInt stdin = Some c"
    and "fetchVehicles e (make_arg c) (model_arg c) (sort_arg c) (year_arg c) (cylinders_arg c)
           (resultNb_arg c) = Inr vehicles"
    and "vehicles \<noteq> []"
  shows "\<exists>r. main e fs scanString scanInt stdin = Some (Returned r)
      \<and> jsonFile r = fst (snd (saveVehiclesToJSON fs vehicles ''vehicles.json''))
      \<and> csvFile r = fst (snd (saveVehiclesToCSV fs vehicles ''vehicles.csv''))
      \<and> csvFile r = fst (snd (saveVehiclesToCSV
                        (fs\<lparr>createFails := (createFails fs)(''vehicles.json'' := jsonCreate),
                            writeFails := jsonWrite\<rparr>) vehicles ''vehicles.csv''))
      \<and> (\<forall>err. fst (saveVehiclesToJSON fs vehicles ''vehicles.json'') = Some err
            \<longrightarrow> ErrorLine ''Error saving to JSON:'' err \<in> set (console r))
      \<and> (\<forall>err. fst (saveVehiclesToCSV fs vehicles ''vehicles.csv'') = Some err
            \<longrightarrow> ErrorLine ''Error saving to CSV:'' err \<in> set (console r))"
proof -
  obtain je jd jp where j: "saveVehiclesToJSON fs vehicles ''vehicles.json'' = (je, jd, jp)"
    by (cases "saveVehiclesToJSON fs vehicles ''vehicles.json''")
  obtain ce cd cp where c: "saveVehiclesToCSV fs vehicles ''vehicles.csv'' = (ce, cd, cp)"
    by (cases "saveVehiclesToCSV fs vehicles ''vehicles.csv''")
  have m: "main e fs scanString scanInt stdin = Some (Returned (display fs vehicles))"
    using assms(1,2) by (simp add: main_def)
  have jf: "jsonFile (display fs vehicles) = jd"
    using assms(3) j c by (simp add: display_def Let_def)
  have cf: "csvFile (display fs vehicles) = cd"
    using assms(3) j c by (simp add: display_def Let_def)
  have same: "saveVehiclesToCSV
      (fs\<lparr>createFails := (createFails fs)(''vehicles.json'' := jsonCreate),
          writeFails := jsonWrite\<rparr>) vehicles ''vehicles.csv''
      = saveVehiclesToCSV fs vehicles ''vehicles.csv''"
    by (auto simp: saveVehiclesToCSV_eq)
  have jerr: "ErrorLine ''Error saving to JSON:'' err \<in> set (console (display fs vehicles))"
    if "je = Some err" for err
    using assms(3) j c that by (simp add: display_def Let_def split: option.splits)
  have cerr: "ErrorLine ''Error saving to CSV:'' err \<in> set (console (display fs vehicles))"
    if "ce = Some err" for err
    using assms(3) j c that by (simp add: display_def Let_def split: option.splits)
  show ?thesis
    using m jf cf jerr cerr unfolding same j c by simp
qed

lemma fetchVehicles_served: "fetchVehicles served mk md so yr cy n = Inr [honda]"
  by (simp add: fetchVehicles_def fetchBody_def served_def decodeBody_cases civic_def
      honda_def vehicleOfFields_def textField_def float64ToInt_def trunc_def)

theorem C7_exporters_independent_witness:
  "\<exists>r. main served jsonDenied typedString typedInt
          [''Honda'', [], ''2015'', ''4'', ''5'', ''year''] = Some (Returned r)
      \<and> jsonFile r = Untouched
      \<and> csvFile r = Holds [[''Make'', ''Model'', ''Year'', ''Cylinders''],
                            [''Honda'', ''Civic'', ''2015'', ''4'']]
      \<and> ErrorLine ''Error saving to JSON:'' CannotCreateDestination \<in> set (console r)"
proof -
  have four: "itoa 4 = ''4''"
    by (simp add: itoa_def digits.simps digit_def)
  have j: "saveVehiclesToJSON jsonDenied [honda] ''vehicles.json''
      = (Some CannotCreateDestination, Untouched, [])"
    by (simp add: saveVehiclesToJSON_eq jsonDenied_def)
  have c: "fst (snd (saveVehiclesToCSV jsonDenied [honda] ''vehicles.csv''))
      = Holds [[''Make'', ''Model'', ''Year'', ''Cylinders''],
               [''Honda'', ''Civic'', ''2015'', ''4'']]"
    by (simp add: saveVehiclesToCSV_eq jsonDenied_def csvHeader_def csvRow_def honda_def four)
  have f: "fetchVehicles served
      (make_arg \<lparr>make_arg = ''Honda'', model_arg = [], sort_arg = ''year'', year_arg = 2015,
             cylinders_arg = 4, resultNb_arg = 5\<rparr>)
      (model_arg \<lparr>make_arg = ''Honda'', model_arg = [], sort_arg = ''year'', year_arg = 2015,
             cylinders_arg = 4, resultNb_arg = 5\<rparr>)
      (sort_arg \<lparr>make_arg = ''Honda'', model_arg = [], sort_arg = ''year'', year_arg = 2015,
             cylinders_arg = 4, resultNb_arg = 5\<rparr>)
      (year_arg \<lparr>make_arg = ''Honda'', model_arg = [], sort_arg = ''year'', year_arg = 2015,
             cylinders_arg = 4, resultNb_arg = 5\<rparr>)
      (cylinders_arg \<lparr>make_arg = ''Honda'', model_arg = [], sort_arg = ''year'',
             year_arg = 2015, cylinders_arg = 4, resultNb_arg = 5\<rparr>)
      (resultNb_arg \<lparr>make_arg = ''Honda'', model_arg = [], sort_arg = ''year'',
             year_arg = 2015, cylinders_arg = 4, resultNb_arg = 5\<rparr>) = Inr [honda]"
    by (rule fetchVehicles_served)
  have ne: "[honda] \<noteq> []" by simp
  from C7_exporters_independent [OF readCriteria_session f ne, of jsonDenied]
  obtain r where r: "main served jsonDenied typedString typedInt
          [''Honda'', [], ''2015'', ''4'', ''5'', ''year''] = Some (Returned r)"
      "jsonFile r = fst (snd (saveVehiclesToJSON jsonDenied [honda] ''vehicles.json''))"
      "csvFile r = fst (snd (saveVehiclesToCSV jsonDenied [honda] ''vehicles.csv''))"
      "\<forall>err. fst (saveVehiclesToJSON jsonDenied [honda] ''vehicles.json'') = Some err
            \<longrightarrow> ErrorLine ''Error saving to JSON:'' err \<in> set (console r)"
    by blast
  from r(2) j have "jsonFile r = Untouched" by simp
  moreover from r(3) c have "csvFile r = Holds [[''Make'', ''Model'', ''Year'', ''Cylinders''],
                            [''Honda'', ''Civic'', ''2015'', ''4'']]" by simp
  moreover from r(4) j
  have "ErrorLine ''Error saving to JSON:'' CannotCreateDestination \<in> set (console r)"
    by simp
  ultimately show ?thesis using r(1) by blast
qed

lemma saveVehiclesToJSON_reports:
  "fst (saveVehiclesToJSON fs vehicles filename) = None
     \<longleftrightarrow> (\<exists>doc. fst (snd (saveVehiclesToJSON fs vehicles filename)) = Holds doc)"
  by (simp add: saveVehiclesToJSON_eq)

lemma saveVehiclesToCSV_reports:
  "fst (saveVehiclesToCSV fs vehicles filename) = None \<and> \<not> flushFails fs filename
     \<longleftrightarrow> (\<exists>rows. fst (snd (saveVehiclesToCSV fs vehicles filename)) = Holds rows)"
  by (simp add: saveVehiclesToCSV_eq)

lemma saveVehiclesToCSV_ignores_flush:
  "fst (saveVehiclesToCSV (fs\<lparr>flushFails := f\<rparr>) vehicles filename)
     = fst (saveVehiclesToCSV fs vehicles filename)"
  by (auto simp: saveVehiclesToCSV_eq)

text \<open>
  Claim C8, evaluated. On a device that lets files be created but takes no data, the
  JSON exporter returns its write failure; the CSV exporter, whose header and single row
  fit the buffer of the writer, returns no error and prints that the data were saved,
  although the flush failed and the file does not hold the output.
\<close>

theorem C8_csv_flush_failure_unreported:
  "saveVehiclesToJSON fullDevice [toyota] ''vehicles.json'' = (Some WriteFailure, Incomplete, [])
   \<and> saveVehiclesToCSV fullDevice [toyota] ''vehicles.csv''
     = (None, Incomplete, [''Vehicles data saved to vehicles.csv''])"
  by (simp add: saveVehiclesToJSON_eq saveVehiclesToCSV_eq fullDevice_def)

section \<open>Decimal text and the round trip through the exported documents\<close>














section \<open>The text of the issued query\<close>

lemma sublist_skip:
  "CHR ''&'' \<notin> set a \<Longrightarrow> sublist (CHR ''&'' # p) (a @ b) \<longleftrightarrow> sublist (CHR ''&'' # p) b"
  by (induction a) (auto simp: sublist_Cons_right)

lemma sublist_apiBase:
  "sublist ''&refine.model='' (apiBase @ rest) \<longleftrightarrow> sublist ''&refine.model='' rest"
  by (simp add: apiBase_def sublist_Cons_right)

lemma sublist_plain:
  "plain c \<Longrightarrow>
   sublist ''&refine.model='' (render c @ rest) \<longleftrightarrow> sublist ''&refine.model='' rest"
  by (cases c) (simp_all add: render_def sublist_Cons_right sublist_skip)

lemma sublist_plain_clauses:
  "list_all plain cs \<Longrightarrow> \<not> sublist ''&refine.model='' (concat (map render cs))"
  by (induction cs) (simp_all add: sublist_plain)

lemma queryClauses_plain:
  "sortOk so \<Longrightarrow> list_all plain (queryClauses [] [] so yr cy n)"
  by (auto simp: list_all_iff queryClauses_mem sortOk_def itoa_no_ampersand)

lemma sublist_render:
  "c \<in> set cs \<Longrightarrow> sublist (render c) (a @ concat (map render cs))"
proof -
  assume "c \<in> set cs"
  then obtain xs ys where "cs = xs @ c # ys" by (auto simp: in_set_conv_decomp)
  then have "a @ concat (map render cs)
      = (a @ concat (map render xs)) @ render c @ concat (map render ys)"
    by simp
  then show ?thesis by (simp only: sublist_appendI)
qed

lemma splitAmp_head:
  "CHR ''&'' \<notin> set k \<Longrightarrow> \<exists>p ps. splitAmp (k @ r) = (k @ p) # ps"
proof (induction k)
  case Nil
  then show ?case using splitAmp_not_Nil [of r] by (cases "splitAmp r") simp_all
next
  case (Cons c k)
  then obtain p ps where "splitAmp (k @ r) = (k @ p) # ps" by auto
  with Cons.prems show ?case by auto
qed

lemma hasParam_make:
  assumes "RefineMake mk \<in> set cs"
  shows "hasParam ''refine.make'' (a @ concat (map render cs))"
proof -
  from assms obtain xs ys where "cs = xs @ RefineMake mk # ys"
    by (auto simp: in_set_conv_decomp)
  then have "a @ concat (map render cs)
      = (a @ concat (map render xs)) @ CHR ''&''
        # (''refine.make='' @ mk @ concat (map render ys))"
    by (simp add: render_def)
  then have split: "splitAmp (a @ concat (map render cs))
      = splitAmp (a @ concat (map render xs))
        @ splitAmp (''refine.make='' @ mk @ concat (map render ys))"
    by (simp only: splitAmp_ampersand)
  obtain p ps where "splitAmp (''refine.make='' @ mk @ concat (map render ys))
      = (''refine.make='' @ p) # ps"
    using splitAmp_head [of "''refine.make=''" "mk @ concat (map render ys)"] by auto
  with split have "''refine.make='' @ p \<in> set (splitAmp (a @ concat (map render cs)))"
    by simp
  moreover have "prefix (''refine.make'' @ ''='') (''refine.make='' @ p)"
    by simp
  ultimately show ?thesis unfolding hasParam_def by (rule bexI [rotated])
qed

text \<open>
  Claim C10. In every run that reaches the call of \<open>fetchVehicles\<close>, the model passed to
  it is empty whenever the make is; hence the clauses of the query contain a model
  refinement only together with a make refinement, the text \<open>&refine.model=\<close> occurs
  in the URL that is requested only if the text \<open>&refine.make=\<close> occurs in it too,
  and the URL, split at its ampersands, shows a model parameter only if it shows a make
  parameter.
  \<open>buildURL\<close> alone treats the two fields independently (claim C1).
\<close>

theorem C10_model_only_with_make:
  assumes "readCriteria scanString scanInt stdin = Some c"
  shows "(make_arg c = [] \<longrightarrow> model_arg c = [])
    \<and> ((\<exists>v. RefineModel v \<in> set (queryClauses (make_arg c) (model_arg c) (sort_arg c)
                (year_arg c) (cylinders_arg c) (resultNb_arg c)))
        \<longrightarrow> (\<exists>v. RefineMake v \<in> set (queryClauses (make_arg c) (model_arg c) (sort_arg c)
                (year_arg c) (cylinders_arg c) (resultNb_arg c))))
    \<and> (sublist ''&refine.model='' (buildURL (make_arg c) (model_arg c) (sort_arg c)
                (year_arg c) (cylinders_arg c) (resultNb_arg c))
        \<longrightarrow> sublist ''&refine.make='' (buildURL (make_arg c) (model_arg c) (sort_arg c)
                (year_arg c) (cylinders_arg c) (resultNb_arg c)))
    \<and> (hasParam ''refine.model'' (buildURL (make_arg c) (model_arg c) (sort_arg c)
                (year_arg c) (cylinders_arg c) (resultNb_arg c))
        \<longrightarrow> hasParam ''refine.make'' (buildURL (make_arg c) (model_arg c) (sort_arg c)
                (year_arg c) (cylinders_arg c) (resultNb_arg c)))"
proof -
  let ?cs = "queryClauses (make_arg c) (model_arg c) (sort_arg c) (year_arg c)
      (cylinders_arg c) (resultNb_arg c)"
  let ?url = "buildURL (make_arg c) (model_arg c) (sort_arg c) (year_arg c)
      (cylinders_arg c) (resultNb_arg c)"
  from readCriteria_checked [OF assms]
  have mm: "make_arg c = [] \<longrightarrow> model_arg c = []" and so: "sortOk (sort_arg c)"
    by simp_all
  have url: "?url = apiBase @ concat (map render ?cs)"
    by (rule buildURL_clauses)
  show ?thesis
  proof (cases "make_arg c = []")
    case True
    with mm have md: "model_arg c = []" by simp
    from True md so have "list_all plain ?cs"
      by (simp add: queryClauses_plain)
    then have "\<not> sublist ''&refine.model='' (concat (map render ?cs))"
      by (rule sublist_plain_clauses)
    then have "\<not> sublist ''&refine.model='' ?url"
      unfolding url sublist_apiBase .
    moreover from True md have "\<nexists>v. RefineModel v \<in> set ?cs"
      by (auto simp: queryClauses_mem)
    moreover have "\<not> hasParam ''refine.model'' ?url"
    proof -
      from so have "CHR ''&'' \<notin> set (sort_arg c)"
        by (auto simp: sortOk_def)
      with True md have "CHR ''&'' \<notin> set (make_arg c) \<union> set (model_arg c) \<union> set (sort_arg c)"
        by simp
      from hasParam_buildURL(4) [OF this] md show ?thesis by simp
    qed
    ultimately show ?thesis using mm by blast
  next
    case False
    then have mem: "RefineMake (make_arg c) \<in> set ?cs"
      by (simp add: queryClauses_mem)
    then have "sublist (render (RefineMake (make_arg c))) ?url"
      unfolding url by (rule sublist_render)
    moreover have "sublist ''&refine.make='' (render (RefineMake (make_arg c)))"
      by (simp add: render_def)
    ultimately have "sublist ''&refine.make='' ?url"
      by (rule sublist_order.order_trans [rotated])
    moreover from mem have "hasParam ''refine.make'' ?url"
      unfolding url by (rule hasParam_make)
    ultimately show ?thesis using mem mm by blast
  qed
qed

theorem C10_model_only_with_make_witness:
  "readCriteria typedString typedInt [[], ''2015'', ''4'', ''5'', ''year'']
     = Some \<lparr>make_arg = [], model_arg = [], sort_arg = ''year'', year_arg = 2015,
             cylinders_arg = 4, resultNb_arg = 5\<rparr>
   \<and> \<not> sublist ''&refine.model='' (buildURL [] [] ''year'' 2015 4 5)
   \<and> readCriteria typedString typedInt [''Honda'', ''Civic'', ''2015'', ''4'', ''5'', ''year'']
     = Some \<lparr>make_arg = ''Honda'', model_arg = ''Civic'', sort_arg = ''year'', year_arg = 2015,
             cylinders_arg = 4, resultNb_arg = 5\<rparr>
   \<and> sublist ''&refine.model='' (buildURL ''Honda'' ''Civic'' ''year'' 2015 4 5)
   \<and> sublist ''&refine.make='' (buildURL ''Honda'' ''Civic'' ''year'' 2015 4 5)"
proof -
  have y: "askUntil typedInt yearOk [''2015'', ''4'', ''5'', ''year'']
      = Some (2015, [''4'', ''5'', ''year''])"
    by (subst askUntil.simps)
      (simp add: typedInt_def atoi_def digitValue_def yearOk_def)
  have c: "askUntil typedInt cylindersOk [''4'', ''5'', ''year''] = Some (4, [''5'', ''year''])"
    by (subst askUntil.simps)
      (simp add: typedInt_def atoi_def digitValue_def cylindersOk_def)
  have n: "askUntil typedInt resultNbOk [''5'', ''year''] = Some (5, [''year''])"
    by (subst askUntil.simps)
      (simp add: typedInt_def atoi_def digitValue_def resultNbOk_def)
  have s: "askUntil typedString sortOk [''year''] = Some (''year'', [])"
    by (subst askUntil.simps) (simp add: typedString_def sortOk_def)
  have r1: "readCriteria typedString typedInt [[], ''2015'', ''4'', ''5'', ''year'']
     = Some \<lparr>make_arg = [], model_arg = [], sort_arg = ''year'', year_arg = 2015,
             cylinders_arg = 4, resultNb_arg = 5\<rparr>"
    by (simp add: readCriteria_def typedString_def y c n s)
  have r2: "readCriteria typedString typedInt
       [''Honda'', ''Civic'', ''2015'', ''4'', ''5'', ''year'']
     = Some \<lparr>make_arg = ''Honda'', model_arg = ''Civic'', sort_arg = ''year'', year_arg = 2015,
             cylinders_arg = 4, resultNb_arg = 5\<rparr>"
    by (simp add: readCriteria_def typedString_def y c n s)
  have m: "sublist ''&refine.model='' (buildURL ''Honda'' ''Civic'' ''year'' 2015 4 5)"
  proof -
    have "buildURL ''Honda'' ''Civic'' ''year'' 2015 4 5
        = (apiBase @ ''&rows='' @ sprintf_d 5 @ ''&sort=year&refine.make=Honda'')
          @ ''&refine.model='' @ (''Civic'' @ ''&refine.year='' @ sprintf_d 2015
          @ ''&refine.cylinders='' @ sprintf_d 4)"
      by (simp add: buildURL_def)
    then show ?thesis by (simp only: sublist_appendI)
  qed
  from C10_model_only_with_make [OF r1]
  have "sublist ''&refine.model='' (buildURL [] [] ''year'' 2015 4 5)
      \<longrightarrow> sublist ''&refine.make='' (buildURL [] [] ''year'' 2015 4 5)"
    by simp
  moreover have "\<not> sublist ''&refine.make='' (buildURL [] [] ''year'' 2015 4 5)"
    by (simp add: buildURL_def apiBase_def sprintf_d_def itoa_def digits.simps digit_def
        sublist_Cons_right)
  ultimately have a: "\<not> sublist ''&refine.model='' (buildURL [] [] ''year'' 2015 4 5)"
    by blast
  from C10_model_only_with_make [OF r2] m
  have b: "sublist ''&refine.make='' (buildURL ''Honda'' ''Civic'' ''year'' 2015 4 5)"
    by simp
  from r1 a r2 m b show ?thesis by (intro conjI)
qed

end
